theory Spec2Isabelle
  imports Complex_Main "HOL-Library.Sublist"
begin

section \<open>Data model of the graph component\<close>

text \<open>
  The development embeds the interaction and layout logic of the React component
  \<^verbatim>\<open>Graph\<close> and of its child \<^verbatim>\<open>GraphEdges\<close> (both in
  \<^verbatim>\<open>src/components/graph/GraphEdges.tsx\<close>), and the display-name expression of
  \<^verbatim>\<open>src/components/graph-node/GraphNode.tsx\<close>.

  Conventions of the embedding:
  \<^item> a JavaScript \<^verbatim>\<open>number\<close> is a \<^typ>\<open>real\<close>: arithmetic is exact, IEEE-754 rounding
    and the infinities are not represented; the coordinates of a stored position are
    the only numbers that can also be \<^verbatim>\<open>NaN\<close>, which expansion produces when it adds a
    number to \<^verbatim>\<open>undefined\<close>;
  \<^item> an optional field is an \<^typ>\<open>'a option\<close>, \<^verbatim>\<open>undefined\<close> being \<^term>\<open>None\<close>;
  \<^item> a \<^verbatim>\<open>Record<string, {x, y}>\<close> is the map of its own properties, from strings to
    positions; reading a key it does not have goes to \<^verbatim>\<open>Object.prototype\<close>, as every
    such record of the component is a plain object (\<open>lookupPosition\<close> below);
  \<^item> a \<^verbatim>\<open>Set<string>\<close> is a duplicate-free list in insertion order, which is the order
    in which \<^verbatim>\<open>Array.from\<close> and \<^verbatim>\<open>forEach\<close> enumerate it;
  \<^item> every \<^verbatim>\<open>useState\<close> cell read or written by a modelled handler is a field of
    \<open>graph_state\<close>; a handler is a function from the state to the next state.
  Field names carry a prefix where the bare name (\<^verbatim>\<open>id\<close>, \<^verbatim>\<open>x\<close>, \<^verbatim>\<open>top\<close>, ...) is
  already taken in HOL or would capture a variable name.
\<close>

datatype js_number = Num real | NaN

instantiation js_number :: zero
begin

definition zero_js_number :: js_number where
  "zero_js_number = Num 0"

instance ..

end

record position =
  pos_x :: js_number
  pos_y :: js_number

record dimensions =
  dim_width :: real
  dim_height :: real

datatype import_item =
  ImportString string
| ImportObject (imp_name: "string option") (imp_path: "string option")

record node_metadata =
  md_filePath :: "string option"
  md_fullName :: "string option"
  md_outgoingDependencies :: "string list option"
  md_imports :: "import_item list option"

record node =
  node_id :: string
  node_name :: "string option"
  node_title :: "string option"
  node_metadata :: "node_metadata option"

record edge =
  edge_source :: string
  edge_target :: string
  edge_type :: "string option"

record graph_data =
  data_nodes :: "node list"
  data_edges :: "edge list"

record transform =
  t_x :: real
  t_y :: real
  t_scale :: real

record highlighted_path =
  hp_nodes :: "string list"
  hp_edges :: "string list"

type_synonym node_positions = "string \<rightharpoonup> position"

record graph_state =
  nodePositions :: node_positions
  selectedNode :: "node option"
  highlightedPath :: highlighted_path
  transform :: transform
  expandingNode :: "string option"

subsection \<open>JavaScript values\<close>

text \<open>Truthiness of an optional string: \<^verbatim>\<open>undefined\<close> and \<^verbatim>\<open>''\<close> are falsy.\<close>

definition truthy :: "string option \<Rightarrow> bool" where
  "truthy v = (case v of None \<Rightarrow> False | Some s \<Rightarrow> s \<noteq> [])"

text \<open>\<^verbatim>\<open>a || b\<close> on optional strings.\<close>

definition js_or :: "string option \<Rightarrow> string option \<Rightarrow> string option" where
  "js_or a b = (if truthy a then a else b)"

text \<open>\<^verbatim>\<open>s.includes(sub)\<close>: \<open>sub\<close> occurs in \<open>s\<close> as a contiguous block.\<close>

definition js_includes :: "string \<Rightarrow> string \<Rightarrow> bool" where
  "js_includes s sub = sublist sub s"

text \<open>\<^verbatim>\<open>Set.prototype.add\<close> and \<^verbatim>\<open>new Set(iterable)\<close>.\<close>

definition set_add :: "'a \<Rightarrow> 'a list \<Rightarrow> 'a list" where
  "set_add v s = (if v \<in> set s then s else s @ [v])"

definition new_Set :: "'a list \<Rightarrow> 'a list" where
  "new_Set vs = foldl (\<lambda>s v. set_add v s) [] vs"

text \<open>The template literal \<^verbatim>\<open>`${edge.source}-${edge.target}`\<close>.\<close>

definition edgeKey :: "string \<Rightarrow> string \<Rightarrow> string" where
  "edgeKey src tgt = src @ ''-'' @ tgt"

text \<open>
  The names that every plain object inherits from \<^verbatim>\<open>Object.prototype\<close>. Each of them
  reads as a function, or as the prototype object for \<^verbatim>\<open>__proto__\<close>: a truthy value
  without properties \<^verbatim>\<open>x\<close> and \<^verbatim>\<open>y\<close>.
\<close>

definition object_prototype_members :: "string list" where
  "object_prototype_members =
     [''constructor'', ''hasOwnProperty'', ''isPrototypeOf'', ''propertyIsEnumerable'',
      ''toLocaleString'', ''toString'', ''valueOf'', ''__proto__'',
      ''__defineGetter__'', ''__defineSetter__'', ''__lookupGetter__'', ''__lookupSetter__'']"

text \<open>
  The value of \<^verbatim>\<open>nodePositions[key]\<close>: the record's own entry, else an inherited
  member, else \<^verbatim>\<open>undefined\<close>.
\<close>

datatype js_lookup = Undefined | Own position | Inherited

definition lookupPosition :: "(string \<rightharpoonup> position) \<Rightarrow> string \<Rightarrow> js_lookup" where
  "lookupPosition np key =
     (case np key of
        Some p \<Rightarrow> Own p
      | None \<Rightarrow> if key \<in> set object_prototype_members then Inherited else Undefined)"

text \<open>
  Reading \<^verbatim>\<open>.x\<close> and \<^verbatim>\<open>.y\<close> from a truthy lookup result; \<^term>\<open>None\<close> is
  \<^verbatim>\<open>undefined\<close>. (The code never reads a property of \<^verbatim>\<open>undefined\<close> itself.)
\<close>

definition prop_x :: "js_lookup \<Rightarrow> js_number option" where
  "prop_x v = (case v of Own p \<Rightarrow> Some (pos_x p) | _ \<Rightarrow> None)"

definition prop_y :: "js_lookup \<Rightarrow> js_number option" where
  "prop_y v = (case v of Own p \<Rightarrow> Some (pos_y p) | _ \<Rightarrow> None)"

text \<open>
  \<^verbatim>\<open>v === 0\<close> for such a reading: false for \<^verbatim>\<open>undefined\<close> and for \<^verbatim>\<open>NaN\<close>.
\<close>

definition is_zero :: "js_number option \<Rightarrow> bool" where
  "is_zero v = (v = Some 0)"

text \<open>
  \<^verbatim>\<open>v + r\<close> for such a reading and a number \<open>r\<close>: \<^verbatim>\<open>NaN\<close> when \<open>v\<close> is
  \<^verbatim>\<open>undefined\<close> or \<^verbatim>\<open>NaN\<close>.
\<close>

definition js_plus :: "js_number option \<Rightarrow> real \<Rightarrow> js_number" where
  "js_plus v r = (case v of Some (Num a) \<Rightarrow> Num (a + r) | _ \<Rightarrow> NaN)"

section \<open>Viewport transform\<close>

record dom_rect =
  rect_left :: real
  rect_top :: real

record wheel_event =
  clientX :: real
  clientY :: real
  deltaY :: real

text \<open>
  \<^verbatim>\<open>handleWheel\<close>. The first argument is \<^verbatim>\<open>graphRef.current?.getBoundingClientRect()\<close>;
  the handler returns without an update when it is undefined.
\<close>

definition handleWheel :: "dom_rect option \<Rightarrow> wheel_event \<Rightarrow> graph_state \<Rightarrow> graph_state" where
  "handleWheel svgRect e s =
     (case svgRect of
        None \<Rightarrow> s
      | Some r \<Rightarrow>
          (let pointerX = clientX e - rect_left r;
               pointerY = clientY e - rect_top r;
               delta = deltaY e * (- 0.005);
               newScale = min (max (t_scale (transform s) + delta) 0.1) 5;
               scaleFactor = newScale / t_scale (transform s);
               tx = pointerX - (pointerX - t_x (transform s)) * scaleFactor;
               ty = pointerY - (pointerY - t_y (transform s)) * scaleFactor
           in s\<lparr>transform := \<lparr>t_x = tx, t_y = ty, t_scale = newScale\<rparr>\<rparr>))"

definition handleZoomIn :: "graph_state \<Rightarrow> graph_state" where
  "handleZoomIn s =
     (let prev = transform s; newScale = min (t_scale prev + 0.2) 5
      in s\<lparr>transform := prev\<lparr>t_scale := newScale\<rparr>\<rparr>)"

definition handleZoomOut :: "graph_state \<Rightarrow> graph_state" where
  "handleZoomOut s =
     (let prev = transform s; newScale = max (t_scale prev - 0.2) 0.1
      in s\<lparr>transform := prev\<lparr>t_scale := newScale\<rparr>\<rparr>)"

text \<open>The three zoom gestures, and a sequence of them applied from left to right.\<close>

datatype zoom_op = ZoomIn | ZoomOut | Wheel "dom_rect option" wheel_event

fun zoom_step :: "zoom_op \<Rightarrow> graph_state \<Rightarrow> graph_state" where
  "zoom_step ZoomIn s = handleZoomIn s"
| "zoom_step ZoomOut s = handleZoomOut s"
| "zoom_step (Wheel r e) s = handleWheel r e s"

fun zoom_run :: "zoom_op list \<Rightarrow> graph_state \<Rightarrow> graph_state" where
  "zoom_run [] s = s"
| "zoom_run (z # zs) s = zoom_run zs (zoom_step z s)"

definition scale_in_range :: "graph_state \<Rightarrow> bool" where
  "scale_in_range s = (0.1 \<le> t_scale (transform s) \<and> t_scale (transform s) \<le> 5)"

section \<open>Double-precision arithmetic\<close>

text \<open>
  The handlers above compute with exact reals. What a handler stores also depends on the
  rounding of the IEEE-754 double-precision numbers that JavaScript computes with; this
  section models them, for the properties that depend on the computed values.

  A finite double is the real it denotes; the result of an operation is its exact value
  rounded to the nearest double, ties to the even significand. \<open>rnd64\<close> rounds to 53
  significant bits with no bound on the exponent above and the exponent \<open>-1074\<close> of the
  subnormal numbers below.
\<close>

definition round_half_even :: "real \<Rightarrow> int" where
  "round_half_even q =
     (let f = \<lfloor>q\<rfloor>; r = q - of_int f
      in if r < 1/2 then f else if 1/2 < r then f + 1 else if even f then f else f + 1)"

definition ulp_exponent :: "real \<Rightarrow> int" where
  "ulp_exponent x = max \<lfloor>log 2 \<bar>x\<bar>\<rfloor> (- 1022) - 52"

definition rnd64 :: "real \<Rightarrow> real" where
  "rnd64 x = (if x = 0 then 0
              else of_int (round_half_even (x / 2 powr of_int (ulp_exponent x)))
                   * 2 powr of_int (ulp_exponent x))"

text \<open>
  A \<^verbatim>\<open>number\<close>: finite, an infinity, or \<^verbatim>\<open>NaN\<close>. The sign of a zero is not
  represented: the one zero behaves as \<^verbatim>\<open>+0\<close>, which differs from the code only in a
  division by a negative zero.
\<close>

datatype double = Finite real | PosInfinity | NegInfinity | NotANumber

text \<open>Rounding, with overflow to an infinity.\<close>

definition to_double :: "real \<Rightarrow> double" where
  "to_double x =
     (let r = rnd64 x
      in if 2 ^ 1024 \<le> r then PosInfinity
         else if r \<le> - (2 ^ 1024) then NegInfinity
         else Finite r)"

text \<open>Unary minus, \<^verbatim>\<open>+\<close>, \<^verbatim>\<open>-\<close>, \<^verbatim>\<open>*\<close>, \<^verbatim>\<open>/\<close>, \<^verbatim>\<open>Math.max\<close> and \<^verbatim>\<open>Math.min\<close>.\<close>

fun d_neg :: "double \<Rightarrow> double" where
  "d_neg (Finite a) = Finite (- a)"
| "d_neg PosInfinity = NegInfinity"
| "d_neg NegInfinity = PosInfinity"
| "d_neg NotANumber = NotANumber"

fun d_add :: "double \<Rightarrow> double \<Rightarrow> double" where
  "d_add NotANumber _ = NotANumber"
| "d_add _ NotANumber = NotANumber"
| "d_add (Finite a) (Finite b) = to_double (a + b)"
| "d_add PosInfinity NegInfinity = NotANumber"
| "d_add NegInfinity PosInfinity = NotANumber"
| "d_add PosInfinity _ = PosInfinity"
| "d_add _ PosInfinity = PosInfinity"
| "d_add NegInfinity _ = NegInfinity"
| "d_add _ NegInfinity = NegInfinity"

definition d_sub :: "double \<Rightarrow> double \<Rightarrow> double" where
  "d_sub a b = d_add a (d_neg b)"

fun d_mul :: "double \<Rightarrow> double \<Rightarrow> double" where
  "d_mul NotANumber _ = NotANumber"
| "d_mul _ NotANumber = NotANumber"
| "d_mul (Finite a) (Finite b) = to_double (a * b)"
| "d_mul (Finite a) PosInfinity =
     (if a = 0 then NotANumber else if 0 < a then PosInfinity else NegInfinity)"
| "d_mul (Finite a) NegInfinity =
     (if a = 0 then NotANumber else if 0 < a then NegInfinity else PosInfinity)"
| "d_mul PosInfinity (Finite b) =
     (if b = 0 then NotANumber else if 0 < b then PosInfinity else NegInfinity)"
| "d_mul NegInfinity (Finite b) =
     (if b = 0 then NotANumber else if 0 < b then NegInfinity else PosInfinity)"
| "d_mul PosInfinity PosInfinity = PosInfinity"
| "d_mul PosInfinity NegInfinity = NegInfinity"
| "d_mul NegInfinity PosInfinity = NegInfinity"
| "d_mul NegInfinity NegInfinity = PosInfinity"

fun d_div :: "double \<Rightarrow> double \<Rightarrow> double" where
  "d_div NotANumber _ = NotANumber"
| "d_div _ NotANumber = NotANumber"
| "d_div (Finite a) (Finite b) =
     (if b = 0
      then (if a = 0 then NotANumber else if 0 < a then PosInfinity else NegInfinity)
      else to_double (a / b))"
| "d_div (Finite a) PosInfinity = Finite 0"
| "d_div (Finite a) NegInfinity = Finite 0"
| "d_div PosInfinity (Finite b) = (if 0 \<le> b then PosInfinity else NegInfinity)"
| "d_div NegInfinity (Finite b) = (if 0 \<le> b then NegInfinity else PosInfinity)"
| "d_div PosInfinity PosInfinity = NotANumber"
| "d_div PosInfinity NegInfinity = NotANumber"
| "d_div NegInfinity PosInfinity = NotANumber"
| "d_div NegInfinity NegInfinity = NotANumber"

fun d_max :: "double \<Rightarrow> double \<Rightarrow> double" where
  "d_max NotANumber _ = NotANumber"
| "d_max _ NotANumber = NotANumber"
| "d_max PosInfinity _ = PosInfinity"
| "d_max _ PosInfinity = PosInfinity"
| "d_max NegInfinity b = b"
| "d_max a NegInfinity = a"
| "d_max (Finite a) (Finite b) = Finite (max a b)"

fun d_min :: "double \<Rightarrow> double \<Rightarrow> double" where
  "d_min NotANumber _ = NotANumber"
| "d_min _ NotANumber = NotANumber"
| "d_min NegInfinity _ = NegInfinity"
| "d_min _ NegInfinity = NegInfinity"
| "d_min PosInfinity b = b"
| "d_min a PosInfinity = a"
| "d_min (Finite a) (Finite b) = Finite (min a b)"

text \<open>A numeric literal of the source denotes the double nearest to its decimal value.\<close>

definition lit :: "real \<Rightarrow> double" where
  "lit x = to_double x"

subsection \<open>Wheel zoom in double precision\<close>

text \<open>
  \<^verbatim>\<open>handleWheel\<close> again, with every operation of the source in double precision. It
  reads and writes the \<^verbatim>\<open>transform\<close> cell only.
\<close>

record transform64 =
  x64 :: double
  y64 :: double
  scale64 :: double

record dom_rect64 =
  left64 :: double
  top64 :: double

record wheel_event64 =
  clientX64 :: double
  clientY64 :: double
  deltaY64 :: double

definition handleWheel64 :: "dom_rect64 option \<Rightarrow> wheel_event64 \<Rightarrow> transform64 \<Rightarrow> transform64" where
  "handleWheel64 svgRect e tr =
     (case svgRect of
        None \<Rightarrow> tr
      | Some r \<Rightarrow>
          (let pointerX = d_sub (clientX64 e) (left64 r);
               pointerY = d_sub (clientY64 e) (top64 r);
               delta = d_mul (deltaY64 e) (d_neg (lit 0.005));
               newScale = d_min (d_max (d_add (scale64 tr) delta) (lit 0.1)) (lit 5);
               scaleFactor = d_div newScale (scale64 tr);
               tx = d_sub pointerX (d_mul (d_sub pointerX (x64 tr)) scaleFactor);
               ty = d_sub pointerY (d_mul (d_sub pointerY (y64 tr)) scaleFactor)
           in \<lparr>x64 = tx, y64 = ty, scale64 = newScale\<rparr>))"

section \<open>Renderable edges and nodes\<close>

text \<open>
  The filter \<^verbatim>\<open>validEdges\<close> of \<^verbatim>\<open>GraphEdges\<close>. An own entry and an inherited member
  are both truthy, so \<^verbatim>\<open>sourcePos && targetPos\<close> holds unless a lookup is
  \<^verbatim>\<open>undefined\<close>; \<^verbatim>\<open>sourcePos.x !== 0\<close> holds for every reading but the number 0.
\<close>

definition edgeIsValid :: "node_positions \<Rightarrow> edge \<Rightarrow> bool" where
  "edgeIsValid np e =
     (let sourcePos = lookupPosition np (edge_source e);
          targetPos = lookupPosition np (edge_target e)
      in sourcePos \<noteq> Undefined \<and> targetPos \<noteq> Undefined \<and>
         \<not> is_zero (prop_x sourcePos) \<and> \<not> is_zero (prop_y sourcePos) \<and>
         \<not> is_zero (prop_x targetPos) \<and> \<not> is_zero (prop_y targetPos))"

definition validEdges :: "edge list \<Rightarrow> node_positions \<Rightarrow> edge list" where
  "validEdges es np = filter (edgeIsValid np) es"

text \<open>
  The guard of the node loop in \<^verbatim>\<open>Graph\<close>:
  \<^verbatim>\<open>position = nodePositions[node.id] || {x: 0, y: 0}\<close>, and the node is skipped when
  \<^verbatim>\<open>position.x === 0 && position.y === 0\<close>.
\<close>

definition nodeIsRendered :: "node_positions \<Rightarrow> node \<Rightarrow> bool" where
  "nodeIsRendered np n =
     (let position = (case lookupPosition np (node_id n) of
                        Undefined \<Rightarrow> Own \<lparr>pos_x = 0, pos_y = 0\<rparr>
                      | found \<Rightarrow> found)
      in \<not> (is_zero (prop_x position) \<and> is_zero (prop_y position)))"

definition renderedNodes :: "node list \<Rightarrow> node_positions \<Rightarrow> node list" where
  "renderedNodes ns np = filter (nodeIsRendered np) ns"

text \<open>The origin \<open>(0, 0)\<close> marks a node that has not been placed.\<close>

definition sentinel :: "position \<Rightarrow> bool" where
  "sentinel p = (pos_x p = 0 \<and> pos_y p = 0)"

section \<open>Display name\<close>

text \<open>
  \<^verbatim>\<open>node.name || node.title || `Node ${node.id}`\<close>, as written in
  \<^verbatim>\<open>getNodeDisplayName\<close> of \<^verbatim>\<open>Graph\<close> and again for \<^verbatim>\<open>displayName\<close> in the
  node component.
\<close>

definition getNodeDisplayName :: "node \<Rightarrow> string" where
  "getNodeDisplayName n =
     (case js_or (js_or (node_name n) (node_title n)) (Some (''Node '' @ node_id n)) of
        Some s \<Rightarrow> s
      | None \<Rightarrow> [])"

definition displayName :: "node \<Rightarrow> string" where
  "displayName n =
     (case js_or (js_or (node_name n) (node_title n)) (Some (''Node '' @ node_id n)) of
        Some s \<Rightarrow> s
      | None \<Rightarrow> [])"

section \<open>Selection and highlight handlers\<close>

text \<open>\<^verbatim>\<open>findConnectedNodes\<close>: the loop body, then the loop over \<^verbatim>\<open>processedData.edges\<close>.\<close>

definition addConnected ::
  "string \<Rightarrow> string list \<times> string list \<Rightarrow> edge \<Rightarrow> string list \<times> string list" where
  "addConnected nodeId acc e =
     (if edge_source e = nodeId \<or> edge_target e = nodeId
      then (set_add (edge_target e) (set_add (edge_source e) (fst acc)),
            set_add (edgeKey (edge_source e) (edge_target e)) (snd acc))
      else acc)"

definition findConnectedNodes :: "graph_data \<Rightarrow> string \<Rightarrow> highlighted_path" where
  "findConnectedNodes d nodeId =
     (let acc = foldl (addConnected nodeId) (set_add nodeId [], []) (data_edges d)
      in \<lparr>hp_nodes = fst acc, hp_edges = snd acc\<rparr>)"

definition handleNodeClick :: "graph_data \<Rightarrow> node \<Rightarrow> graph_state \<Rightarrow> graph_state" where
  "handleNodeClick d n s =
     s\<lparr>selectedNode := Some n, highlightedPath := findConnectedNodes d (node_id n)\<rparr>"

definition handleEdgeClick :: "edge \<Rightarrow> graph_state \<Rightarrow> graph_state" where
  "handleEdgeClick e s =
     s\<lparr>highlightedPath :=
         \<lparr>hp_nodes = new_Set [edge_source e, edge_target e],
          hp_edges = new_Set [edgeKey (edge_source e) (edge_target e)]\<rparr>\<rparr>"

section \<open>Effect run when the node list changes\<close>

text \<open>
  The updater passed to \<^verbatim>\<open>setNodePositions\<close>: it copies the entries of the previous
  map whose key is among the ids of the current nodes.
\<close>

definition prunePositions :: "node list \<Rightarrow> node_positions \<Rightarrow> node_positions" where
  "prunePositions ns prevPositions =
     (let currentNodeIds = new_Set (map node_id ns)
      in (\<lambda>k. if k \<in> set currentNodeIds then prevPositions k else None))"

definition dataChangeEffect :: "graph_data \<Rightarrow> graph_state \<Rightarrow> graph_state" where
  "dataChangeEffect d s =
     s\<lparr>highlightedPath := \<lparr>hp_nodes = [], hp_edges = []\<rparr>,
       selectedNode := None,
       nodePositions := prunePositions (data_nodes d) (nodePositions s)\<rparr>"

section \<open>Layout selection\<close>

datatype layout_kind = Circular | Force | Tree | Spiral | Donut

text \<open>
  The layout functions and \<^verbatim>\<open>getInitialZoomScale\<close> are imported from
  \<^verbatim>\<open>utils/graphLayout\<close>, which is not part of the sources at hand: they are parameters
  of the model.
\<close>

record layout_utils =
  createCircularLayout :: "node list \<Rightarrow> position \<Rightarrow> dimensions \<Rightarrow> node_positions"
  createSpiralLayout :: "node list \<Rightarrow> position \<Rightarrow> dimensions \<Rightarrow> node_positions"
  createDonutLayout :: "node list \<Rightarrow> position \<Rightarrow> dimensions \<Rightarrow> node_positions"
  createForceLayout :: "node list \<Rightarrow> position \<Rightarrow> dimensions \<Rightarrow> node_positions"
  getInitialZoomScale :: "nat \<Rightarrow> real"

datatype layout_call =
  CallCircularLayout | CallSpiralLayout | CallDonutLayout | CallForceLayout

definition actualLayout :: "nat \<Rightarrow> layout_kind \<Rightarrow> layout_kind" where
  "actualLayout nodeCount autoLayout =
     (if nodeCount > 50 \<and> autoLayout = Circular then Donut else autoLayout)"

text \<open>The chain of comparisons on \<^verbatim>\<open>actualLayout\<close>; a tree request falls back to circular.\<close>

definition layoutBranch :: "layout_kind \<Rightarrow> layout_call" where
  "layoutBranch k =
     (if k = Circular then CallCircularLayout
      else if k = Tree then CallCircularLayout
      else if k = Spiral then CallSpiralLayout
      else if k = Donut then CallDonutLayout
      else CallForceLayout)"

text \<open>
  Which layout function the effect calls; \<^term>\<open>None\<close> when the effect returns at its
  first line because the node list is empty.
\<close>

definition layoutCalled :: "node list \<Rightarrow> layout_kind \<Rightarrow> layout_call option" where
  "layoutCalled ns autoLayout =
     (if length ns = 0 then None
      else Some (layoutBranch (actualLayout (length ns) autoLayout)))"

definition callLayout ::
  "layout_utils \<Rightarrow> layout_call \<Rightarrow> node list \<Rightarrow> position \<Rightarrow> dimensions \<Rightarrow> node_positions" where
  "callLayout u c ns center area =
     (case c of
        CallCircularLayout \<Rightarrow> createCircularLayout u ns center area
      | CallSpiralLayout \<Rightarrow> createSpiralLayout u ns center area
      | CallDonutLayout \<Rightarrow> createDonutLayout u ns center area
      | CallForceLayout \<Rightarrow> createForceLayout u ns center area)"

text \<open>
  The layout effect. \<open>viewportSize\<close> and \<open>containerSize\<close> are the state cells of the same
  names, \<open>hasTransformGroup\<close> tells whether \<^verbatim>\<open>transformGroupRef.current\<close> is set.
\<close>

definition layoutEffect ::
  "layout_utils \<Rightarrow> graph_data \<Rightarrow> dimensions \<Rightarrow> dimensions \<Rightarrow> layout_kind \<Rightarrow> bool
     \<Rightarrow> graph_state \<Rightarrow> graph_state" where
  "layoutEffect u d viewportSize containerSize autoLayout hasTransformGroup s =
     (case layoutCalled (data_nodes d) autoLayout of
        None \<Rightarrow> s
      | Some c \<Rightarrow>
          (let nodeCount = length (data_nodes d);
               area = \<lparr>dim_width = dim_width viewportSize * 0.6,
                       dim_height = dim_height viewportSize * 0.6\<rparr>;
               center = \<lparr>pos_x = Num (dim_width viewportSize / 2),
                         pos_y = Num (dim_height viewportSize / 2)\<rparr>;
               positions = callLayout u c (data_nodes d) center area;
               s1 = s\<lparr>nodePositions := positions\<rparr>
           in if hasTransformGroup
              then (let initialScale = getInitialZoomScale u nodeCount;
                        translateX = dim_width containerSize / 2
                                     - (dim_width viewportSize / 2) * initialScale;
                        translateY = dim_height containerSize / 2
                                     - (dim_height viewportSize / 2) * initialScale
                    in s1\<lparr>transform :=
                           \<lparr>t_x = translateX, t_y = translateY, t_scale = initialScale\<rparr>\<rparr>)
              else s1))"

section \<open>Expansion\<close>

text \<open>
  \<^verbatim>\<open>handleExpandNode\<close> fills \<^verbatim>\<open>newNodeIds\<close> and \<^verbatim>\<open>childEdges\<close> in three loops; the
  accumulator below is that pair. (\<^verbatim>\<open>newEdgeKeys\<close> receives the same keys as
  \<^verbatim>\<open>childEdges\<close> and is never read.) The notifications sent to the host (custom event,
  \<^verbatim>\<open>postMessage\<close>, \<^verbatim>\<open>localStorage\<close>, console) do not touch the state, and the timer
  that clears \<^verbatim>\<open>expandingNode\<close> half a second later is outside the handler.
\<close>

definition addChildEdge ::
  "node \<Rightarrow> string list \<times> string list \<Rightarrow> edge \<Rightarrow> string list \<times> string list" where
  "addChildEdge n acc e =
     (if edge_source e = node_id n
      then (set_add (edge_target e) (fst acc),
            set_add (edgeKey (edge_source e) (edge_target e)) (snd acc))
      else acc)"

definition matchesDependency :: "string \<Rightarrow> node \<Rightarrow> bool" where
  "matchesDependency dep n =
     (node_id n = dep \<or> node_name n = Some dep \<or> node_title n = Some dep \<or>
      (case node_metadata n of None \<Rightarrow> False | Some m \<Rightarrow> md_fullName m = Some dep))"

definition addOutgoingDependency ::
  "node list \<Rightarrow> node \<Rightarrow> string list \<times> string list \<Rightarrow> string \<Rightarrow> string list \<times> string list" where
  "addOutgoingDependency ns n acc dep =
     (case find (matchesDependency dep) ns of
        None \<Rightarrow> acc
      | Some dependentNode \<Rightarrow>
          (set_add (node_id dependentNode) (fst acc),
           set_add (edgeKey (node_id n) (node_id dependentNode)) (snd acc)))"

text \<open>\<^verbatim>\<open>typeof imp === 'string' ? imp : imp.name || imp.path\<close>\<close>

definition importNameOf :: "import_item \<Rightarrow> string option" where
  "importNameOf imp =
     (case imp of ImportString s \<Rightarrow> Some s | ImportObject nm pth \<Rightarrow> js_or nm pth)"

definition matchesImport :: "string \<Rightarrow> node \<Rightarrow> bool" where
  "matchesImport importName n =
     (node_id n = importName \<or> node_name n = Some importName \<or>
      node_title n = Some importName \<or>
      (case node_metadata n of
         None \<Rightarrow> False
       | Some m \<Rightarrow>
           (case md_filePath m of
              None \<Rightarrow> False
            | Some fp \<Rightarrow> fp \<noteq> [] \<and> js_includes importName fp)))"

definition addImport ::
  "node list \<Rightarrow> node \<Rightarrow> string list \<times> string list \<Rightarrow> import_item \<Rightarrow> string list \<times> string list" where
  "addImport ns n acc imp =
     (case importNameOf imp of
        None \<Rightarrow> acc
      | Some importName \<Rightarrow>
          if importName = [] then acc
          else (case find (matchesImport importName) ns of
                  None \<Rightarrow> acc
                | Some importedNode \<Rightarrow>
                    (set_add (node_id importedNode) (fst acc),
                     set_add (edgeKey (node_id n) (node_id importedNode)) (snd acc))))"

definition discoverChildren :: "graph_data \<Rightarrow> node \<Rightarrow> string list \<times> string list" where
  "discoverChildren d n =
     (let acc0 = foldl (addChildEdge n) ([], []) (data_edges d)
      in case node_metadata n of
           None \<Rightarrow> acc0
         | Some m \<Rightarrow>
             (let acc1 = (case md_outgoingDependencies m of
                            None \<Rightarrow> acc0
                          | Some deps \<Rightarrow> foldl (addOutgoingDependency (data_nodes d) n) acc0 deps)
              in case md_imports m of
                   None \<Rightarrow> acc1
                 | Some imps \<Rightarrow> foldl (addImport (data_nodes d) n) acc1 imps))"

text \<open>The test that puts a discovered id into \<^verbatim>\<open>nodesToReveal\<close>.\<close>

definition needsReveal :: "node_positions \<Rightarrow> string \<Rightarrow> bool" where
  "needsReveal np nodeId =
     (lookupPosition np nodeId = Undefined \<or>
      (is_zero (prop_x (lookupPosition np nodeId)) \<and>
       is_zero (prop_y (lookupPosition np nodeId))))"

definition nodesToReveal :: "graph_data \<Rightarrow> node \<Rightarrow> node_positions \<Rightarrow> string list" where
  "nodesToReveal d n np = filter (needsReveal np) (fst (discoverChildren d n))"

definition startAngleFor :: "nat \<Rightarrow> real" where
  "startAngleFor count =
     (if count = 1 then 0 else if count = 2 then - pi / 2 else - pi / 2)"

text \<open>
  The body of the placement loop. \<open>nodePos\<close> is the anchor's lookup result; when it is an
  inherited member its coordinates read as \<^verbatim>\<open>undefined\<close> and the sums are \<^verbatim>\<open>NaN\<close>.
\<close>

definition placeNode ::
  "js_lookup \<Rightarrow> real \<Rightarrow> real \<Rightarrow> real \<Rightarrow> node_positions \<Rightarrow> nat \<times> string \<Rightarrow> node_positions" where
  "placeNode nodePos radius startAngle angleStep newPositions entry =
     (let index = fst entry; k = snd entry;
          angle = startAngle + real index * angleStep
      in newPositions(k \<mapsto> \<lparr>pos_x = js_plus (prop_x nodePos) (radius * cos angle),
                            pos_y = js_plus (prop_y nodePos) (radius * sin angle)\<rparr>))"

definition placeRevealed :: "node_positions \<Rightarrow> node \<Rightarrow> string list \<Rightarrow> node_positions" where
  "placeRevealed np n toReveal =
     (if length toReveal > 0
      then (let nodePos = (case lookupPosition np (node_id n) of
                             Undefined \<Rightarrow> Own \<lparr>pos_x = 0, pos_y = 0\<rparr>
                           | found \<Rightarrow> found)
            in if \<not> is_zero (prop_x nodePos) \<or> \<not> is_zero (prop_y nodePos)
               then (let radius = 200;
                         nodesToPlaceArray = toReveal;
                         angleStep = (2 * pi) / real (max (length nodesToPlaceArray) 1);
                         startAngle = startAngleFor (length nodesToPlaceArray)
                     in foldl (placeNode nodePos radius startAngle angleStep) np
                          (enumerate 0 nodesToPlaceArray))
               else np)
      else np)"

definition handleExpandNode :: "graph_data \<Rightarrow> node \<Rightarrow> graph_state \<Rightarrow> graph_state" where
  "handleExpandNode d n s =
     (let found = discoverChildren d n;
          newNodeIds = fst found;
          childEdges = snd found;
          toReveal = nodesToReveal d n (nodePositions s)
      in s\<lparr>expandingNode := Some (node_id n),
           nodePositions := placeRevealed (nodePositions s) n toReveal,
           highlightedPath := \<lparr>hp_nodes = new_Set (node_id n # newNodeIds),
                                hp_edges = childEdges\<rparr>,
           selectedNode := Some n\<rparr>)"

text \<open>
  Invariant of the accumulator of \<^const>\<open>discoverChildren\<close> for the anchor \<open>n\<close>: the ids are
  duplicate-free, and the keys are exactly the keys from the anchor to the ids.
\<close>

definition discovery_inv :: "node \<Rightarrow> string list \<times> string list \<Rightarrow> bool" where
  "discovery_inv n acc =
     (distinct (fst acc) \<and> set (snd acc) = edgeKey (node_id n) ` set (fst acc))"

section \<open>Sample inputs\<close>

text \<open>Small graphs and states on which the results below are instantiated.\<close>

definition plain_node :: "string \<Rightarrow> node" where
  "plain_node k = \<lparr>node_id = k, node_name = None, node_title = None, node_metadata = None\<rparr>"

definition titled_node :: node where
  "titled_node =
     \<lparr>node_id = ''n1'', node_name = None, node_title = Some ''Widget'', node_metadata = None\<rparr>"

definition link :: "string \<Rightarrow> string \<Rightarrow> edge" where
  "link a b = \<lparr>edge_source = a, edge_target = b, edge_type = None\<rparr>"

definition pt :: "real \<Rightarrow> real \<Rightarrow> position" where
  "pt a b = \<lparr>pos_x = Num a, pos_y = Num b\<rparr>"

definition state_with :: "node_positions \<Rightarrow> graph_state" where
  "state_with np =
     \<lparr>nodePositions = np, selectedNode = None,
      highlightedPath = \<lparr>hp_nodes = [], hp_edges = []\<rparr>,
      transform = \<lparr>t_x = 10, t_y = 20, t_scale = 1\<rparr>, expandingNode = None\<rparr>"

text \<open>
  One notch of the wheel (\<open>deltaY = -20\<close>) with the pointer at \<open>(100, 50)\<close> of the drawing
  surface, from scale 1 and translate \<open>(10, 20)\<close>.
\<close>

definition wheel_rect :: dom_rect64 where
  "wheel_rect = \<lparr>left64 = Finite 5, top64 = Finite 5\<rparr>"

definition wheel_tick :: wheel_event64 where
  "wheel_tick = \<lparr>clientX64 = Finite 105, clientY64 = Finite 55, deltaY64 = Finite (- 20)\<rparr>"

definition wheel_start :: transform64 where
  "wheel_start = \<lparr>x64 = Finite 10, y64 = Finite 20, scale64 = Finite 1\<rparr>"

text \<open>
  A position map with a placed pair \<open>a\<close>, \<open>b\<close>, a node \<open>d\<close> at the origin, a node \<open>z\<close>
  on the y-axis, and no entry for \<open>c\<close>.
\<close>

definition render_positions :: node_positions where
  "render_positions =
     [''a'' \<mapsto> pt 100 200, ''b'' \<mapsto> pt 300 400, ''d'' \<mapsto> pt 0 0, ''z'' \<mapsto> pt 0 500]"

definition render_edges :: "edge list" where
  "render_edges = [link ''a'' ''b'', link ''a'' ''c'', link ''a'' ''d'', link ''a'' ''z'']"

definition render_data :: graph_data where
  "render_data =
     \<lparr>data_nodes = map plain_node [''a'', ''b'', ''c'', ''d'', ''z''], data_edges = render_edges\<rparr>"

text \<open>
  The data after a refresh that keeps \<open>a\<close> and \<open>b\<close> only, and a state that still selects
  and highlights \<open>z\<close>.
\<close>

definition refreshed_data :: graph_data where
  "refreshed_data =
     \<lparr>data_nodes = map plain_node [''a'', ''b''], data_edges = [link ''a'' ''b'']\<rparr>"

definition stale_state :: graph_state where
  "stale_state =
     \<lparr>nodePositions = render_positions, selectedNode = Some (plain_node ''z''),
      highlightedPath = \<lparr>hp_nodes = [''z'', ''a''], hp_edges = [''a-z'']\<rparr>,
      transform = \<lparr>t_x = 0, t_y = 0, t_scale = 1\<rparr>, expandingNode = None\<rparr>"

text \<open>
  An anchor \<open>A\<close> whose children come from edges (\<open>B\<close>, \<open>P\<close>), from a dependency hint
  matched by name (\<open>P\<close>) and from an import matched by file path (\<open>Q\<close>).
\<close>

definition anchor_node :: node where
  "anchor_node =
     \<lparr>node_id = ''A'', node_name = Some ''App'', node_title = None,
      node_metadata = Some
        \<lparr>md_filePath = Some ''src/App.tsx'', md_fullName = None,
         md_outgoingDependencies = Some [''Panel'', ''missing''],
         md_imports = Some [ImportString ''./src/Q.tsx'', ImportObject None None,
                            ImportString []]\<rparr>\<rparr>"

definition expansion_data :: graph_data where
  "expansion_data =
     \<lparr>data_nodes =
        [anchor_node,
         \<lparr>node_id = ''P'', node_name = Some ''Panel'', node_title = None, node_metadata = None\<rparr>,
         \<lparr>node_id = ''Q'', node_name = None, node_title = None,
          node_metadata = Some
            \<lparr>md_filePath = Some ''src/Q.tsx'', md_fullName = None,
             md_outgoingDependencies = None, md_imports = None\<rparr>\<rparr>,
         plain_node ''B''],
      data_edges = [link ''A'' ''B'', link ''B'' ''P'', link ''A'' ''P'']\<rparr>"

definition before_expansion :: node_positions where
  "before_expansion = [''A'' \<mapsto> pt 1000 1000, ''B'' \<mapsto> pt 700 1000, ''P'' \<mapsto> pt 0 0]"

definition after_expansion :: node_positions where
  "after_expansion =
     [''A'' \<mapsto> pt 1000 1000, ''B'' \<mapsto> pt 700 1000, ''P'' \<mapsto> pt 1000 800,
      ''Q'' \<mapsto> pt 1000 1200]"

text \<open>Fifty-one nodes with the ids \<open>n\<close>, \<open>ni\<close>, \<open>nii\<close>, ...\<close>

definition fifty_one_nodes :: "node list" where
  "fifty_one_nodes = map (\<lambda>i. plain_node (''n'' @ replicate i (CHR ''i''))) [0..<51]"

text \<open>
  Stand-ins for the layout functions that are told apart by the point they put every
  node on.
\<close>

definition all_at :: "position \<Rightarrow> node list \<Rightarrow> position \<Rightarrow> dimensions \<Rightarrow> node_positions" where
  "all_at p ns center area = (\<lambda>k. if k \<in> set (map node_id ns) then Some p else None)"

definition stub_layouts :: layout_utils where
  "stub_layouts =
     \<lparr>createCircularLayout = all_at (pt 1 1), createSpiralLayout = all_at (pt 2 2),
      createDonutLayout = all_at (pt 3 3), createForceLayout = all_at (pt 4 4),
      getInitialZoomScale = (\<lambda>n. 1)\<rparr>"

definition viewport_5000 :: dimensions where
  "viewport_5000 = \<lparr>dim_width = 5000, dim_height = 5000\<rparr>"

definition container_800 :: dimensions where
  "container_800 = \<lparr>dim_width = 800, dim_height = 600\<rparr>"

section \<open>Auxiliary facts\<close>

subsection \<open>Numbers and lookups\<close>

lemma Num_eq_zero [simp]: "(Num a = 0) = (a = 0)" "(0 = Num a) = (a = 0)" "NaN \<noteq> (0 :: js_number)"
  by (auto simp: zero_js_number_def)

lemma lookupPosition_Some: "np k = Some p \<Longrightarrow> lookupPosition np k = Own p"
  by (simp add: lookupPosition_def)

lemma is_zero_prop_Own [simp]:
  "is_zero (prop_x (Own p)) = (pos_x p = 0)" "is_zero (prop_y (Own p)) = (pos_y p = 0)"
  by (simp_all add: is_zero_def prop_x_def prop_y_def)

lemma is_zero_prop_Inherited [simp]:
  "\<not> is_zero (prop_x Inherited)" "\<not> is_zero (prop_y Inherited)"
  by (simp_all add: is_zero_def prop_x_def prop_y_def)

lemma needsReveal_Some: "np k = Some p \<Longrightarrow> needsReveal np k = sentinel p"
  by (simp add: needsReveal_def lookupPosition_Some sentinel_def)

lemma edgeIsValid_source_Some:
  "np (edge_source e) = Some p \<Longrightarrow> edgeIsValid np e \<Longrightarrow> pos_x p \<noteq> 0 \<and> pos_y p \<noteq> 0"
  by (simp add: edgeIsValid_def Let_def lookupPosition_Some)

lemma edgeIsValid_target_Some:
  "np (edge_target e) = Some p \<Longrightarrow> edgeIsValid np e \<Longrightarrow> pos_x p \<noteq> 0 \<and> pos_y p \<noteq> 0"
  by (simp add: edgeIsValid_def Let_def lookupPosition_Some)

lemma nodeIsRendered_Some:
  "np (node_id n) = Some q \<Longrightarrow> nodeIsRendered np n = (\<not> (pos_x q = 0 \<and> pos_y q = 0))"
  by (simp add: nodeIsRendered_def Let_def lookupPosition_Some)

subsection \<open>Sets as insertion-ordered lists\<close>

lemma set_set_add: "set (set_add v s) = insert v (set s)"
  by (auto simp: set_add_def)

lemma distinct_set_add: "distinct s \<Longrightarrow> distinct (set_add v s)"
  by (simp add: set_add_def)

lemma set_fold_set_add: "set (foldl (\<lambda>s v. set_add v s) acc vs) = set acc \<union> set vs"
  by (induction vs arbitrary: acc) (auto simp: set_add_def)

lemma set_new_Set: "set (new_Set vs) = set vs"
  by (simp add: new_Set_def set_fold_set_add)

lemma foldl_invariant:
  assumes "P acc" and "\<And>a x. P a \<Longrightarrow> P (f a x)"
  shows "P (foldl f acc xs)"
  using assms(1) by (induction xs arbitrary: acc) (simp_all add: assms(2))

subsection \<open>Zoom handlers keep the scale in range\<close>

lemma handleZoomIn_range: "scale_in_range s \<Longrightarrow> scale_in_range (handleZoomIn s)"
  by (simp add: scale_in_range_def handleZoomIn_def Let_def)

lemma handleZoomOut_range: "scale_in_range s \<Longrightarrow> scale_in_range (handleZoomOut s)"
  by (simp add: scale_in_range_def handleZoomOut_def Let_def)

lemma handleWheel_range: "scale_in_range s \<Longrightarrow> scale_in_range (handleWheel r e s)"
  by (cases r) (simp_all add: scale_in_range_def handleWheel_def Let_def)

lemma zoom_step_range: "scale_in_range s \<Longrightarrow> scale_in_range (zoom_step z s)"
  by (cases z) (simp_all add: handleZoomIn_range handleZoomOut_range handleWheel_range)

lemma zoom_run_range: "scale_in_range s \<Longrightarrow> scale_in_range (zoom_run zs s)"
  by (induction zs arbitrary: s) (simp_all add: zoom_step_range)

subsection \<open>Rounding to double precision\<close>

lemma round_half_even_error: "\<bar>of_int (round_half_even q) - q\<bar> \<le> 1/2"
  unfolding round_half_even_def Let_def by (auto simp: abs_if) linarith+

lemma rnd64_error_ulp: "\<bar>rnd64 x - x\<bar> \<le> 2 powr of_int (ulp_exponent x) / 2"
proof (cases "x = 0")
  case True
  then show ?thesis by (simp add: rnd64_def)
next
  case False
  define P :: real where "P = 2 powr of_int (ulp_exponent x)"
  have P: "0 < P" by (simp add: P_def)
  have "rnd64 x - x = (of_int (round_half_even (x / P)) - x / P) * P"
    using False P by (simp add: rnd64_def P_def field_simps)
  then have "\<bar>rnd64 x - x\<bar> = \<bar>of_int (round_half_even (x / P)) - x / P\<bar> * P"
    using P by (simp add: abs_mult)
  also have "\<dots> \<le> (1/2) * P"
    using round_half_even_error [of "x / P"] P by (intro mult_right_mono) auto
  finally show ?thesis by (simp add: P_def)
qed

lemma floor_log2_le: "x \<noteq> 0 \<Longrightarrow> 2 powr of_int \<lfloor>log 2 \<bar>x\<bar>\<rfloor> \<le> \<bar>x\<bar>"
proof -
  assume "x \<noteq> 0"
  then have pos: "0 < \<bar>x\<bar>" by simp
  have "2 powr of_int \<lfloor>log 2 \<bar>x\<bar>\<rfloor> \<le> 2 powr log 2 \<bar>x\<bar>"
    by (intro powr_mono) auto
  also have "\<dots> = \<bar>x\<bar>" using pos by simp
  finally show ?thesis .
qed

lemma rnd64_error_normal:
  assumes "2 powr (- 1022) \<le> \<bar>x\<bar>"
  shows "\<bar>rnd64 x - x\<bar> \<le> \<bar>x\<bar> / 2 ^ 53"
proof -
  have x0: "x \<noteq> 0" using assms by (auto simp: abs_if split: if_splits)
  have "log 2 (2 powr (- 1022)) \<le> log 2 \<bar>x\<bar>"
    using assms by (intro log_mono) auto
  then have "- 1022 \<le> log 2 \<bar>x\<bar>" by simp
  then have "- 1022 \<le> \<lfloor>log 2 \<bar>x\<bar>\<rfloor>" by linarith
  then have e: "ulp_exponent x = \<lfloor>log 2 \<bar>x\<bar>\<rfloor> - 52"
    by (simp add: ulp_exponent_def)
  have "(2::real) powr of_int (ulp_exponent x) = 2 powr of_int \<lfloor>log 2 \<bar>x\<bar>\<rfloor> / 2 ^ 52"
    unfolding e by (simp add: powr_diff)
  also have "\<dots> \<le> \<bar>x\<bar> / 2 ^ 52"
    using floor_log2_le [OF x0] by (simp add: divide_right_mono)
  finally have "2 powr of_int (ulp_exponent x) / 2 \<le> \<bar>x\<bar> / 2 ^ 52 / 2" by simp
  with rnd64_error_ulp [of x] show ?thesis by simp
qed

lemma rnd64_error_subnormal:
  assumes "\<bar>x\<bar> < 2 powr (- 1022)"
  shows "\<bar>rnd64 x - x\<bar> \<le> 1 / 2 ^ 1075"
proof (cases "x = 0")
  case True then show ?thesis by (simp add: rnd64_def)
next
  case False
  then have "log 2 \<bar>x\<bar> < log 2 (2 powr (- 1022))"
    using assms by (intro log_less) auto
  then have "log 2 \<bar>x\<bar> < - 1022" by simp
  then have "\<lfloor>log 2 \<bar>x\<bar>\<rfloor> \<le> - 1022" by linarith
  then have e: "ulp_exponent x = - 1074"
    by (simp add: ulp_exponent_def)
  have "(2::real) powr of_int (ulp_exponent x) / 2 = 1 / 2 ^ 1075"
    unfolding e by (simp add: powr_minus_divide)
  with rnd64_error_ulp [of x] show ?thesis by simp
qed

lemma le_add_right: "a \<le> b \<Longrightarrow> 0 \<le> c \<Longrightarrow> a \<le> b + (c::real)"
  by linarith

lemma le_add_left: "a \<le> c \<Longrightarrow> 0 \<le> b \<Longrightarrow> a \<le> b + (c::real)"
  by linarith

lemma abs_le_via: "0 \<le> r \<Longrightarrow> \<bar>f - r\<bar> \<le> e \<Longrightarrow> \<bar>f\<bar> \<le> r + (e::real)"
  by linarith

lemma rnd64_error: "\<bar>rnd64 x - x\<bar> \<le> \<bar>x\<bar> / 2 ^ 53 + 1 / 2 ^ 1075"
proof (cases "2 powr (- 1022) \<le> \<bar>x\<bar>")
  case True
  show ?thesis
    by (rule le_add_right [OF rnd64_error_normal [OF True]]) simp
next
  case False
  then have "\<bar>x\<bar> < 2 powr (- 1022)" by simp
  show ?thesis
    by (rule le_add_left [OF rnd64_error_subnormal [OF \<open>\<bar>x\<bar> < 2 powr (- 1022)\<close>]]) simp
qed

lemma rnd64_at:
  assumes "2 powr of_int k \<le> \<bar>x\<bar>" and "\<bar>x\<bar> < 2 powr of_int (k + 1)" and "- 1022 \<le> k"
  shows "rnd64 x = of_int (round_half_even (x / 2 powr of_int (k - 52))) * 2 powr of_int (k - 52)"
proof -
  have "(0::real) < 2 powr of_int k" by simp
  then have pos: "0 < \<bar>x\<bar>" using assms(1) by (rule less_le_trans)
  have "\<lfloor>log 2 \<bar>x\<bar>\<rfloor> = k"
    using pos assms(1,2) by (subst floor_log_eq_powr_iff) auto
  then have "ulp_exponent x = k - 52"
    using assms(3) by (simp add: ulp_exponent_def)
  then show ?thesis using pos by (simp add: rnd64_def)
qed

lemma lit_0005: "rnd64 0.005 = 5764607523034235 / 2 ^ 60"
  by (subst rnd64_at [where k = "- 8"]) (simp_all add: round_half_even_def powr_minus_divide)

lemma lit_01: "rnd64 0.1 = 3602879701896397 / 2 ^ 55"
  by (subst rnd64_at [where k = "- 4"]) (simp_all add: round_half_even_def powr_minus_divide)

lemma rnd64_bound: "\<bar>rnd64 x\<bar> \<le> 2 * \<bar>x\<bar> + 1"
proof -
  have "\<bar>rnd64 x\<bar> \<le> \<bar>x\<bar> + \<bar>rnd64 x - x\<bar>" by simp
  also have "\<dots> \<le> \<bar>x\<bar> + (\<bar>x\<bar> / 2 ^ 53 + 1 / 2 ^ 1075)"
    using rnd64_error [of x] by simp
  also have "\<dots> \<le> 2 * \<bar>x\<bar> + 1"
  proof -
    have "\<bar>x\<bar> / 2 ^ 53 \<le> \<bar>x\<bar>" by (simp add: field_simps)
    moreover have "(1::real) / 2 ^ 1075 \<le> 1" by simp
    ultimately show ?thesis by linarith
  qed
  finally show ?thesis .
qed

lemma to_double_Finite:
  assumes "\<bar>x\<bar> \<le> 2 ^ 1022"
  shows "to_double x = Finite (rnd64 x)"
proof -
  have "\<bar>rnd64 x\<bar> \<le> 2 * 2 ^ 1022 + 1"
    using rnd64_bound [of x] assms by linarith
  also have "\<dots> < (2::real) ^ 1024" by simp
  finally have "\<bar>rnd64 x\<bar> < 2 ^ 1024" .
  then show ?thesis
    by (auto simp: to_double_def Let_def abs_if split: if_splits)
qed

lemma d_sub_Finite [simp]: "d_sub (Finite a) (Finite b) = to_double (a - b)"
  by (simp add: d_sub_def)

lemma rnd64_small: "\<bar>x\<bar> \<le> B \<Longrightarrow> \<bar>rnd64 x\<bar> \<le> 2 * B + 1"
  using rnd64_bound [of x] by linarith

lemma pow_le: "m \<le> n \<Longrightarrow> (2::real) ^ m \<le> 2 ^ n"
  by (rule power_increasing) auto

lemma rnd64_5: "rnd64 5 = 5"
  by (subst rnd64_at [where k = 2]) (simp_all add: round_half_even_def powr_minus_divide)

lemma lit_small: "\<bar>x\<bar> \<le> 2 ^ 1022 \<Longrightarrow> lit x = Finite (rnd64 x)"
  by (simp add: lit_def to_double_Finite)

lemma one_le_pow: "(1::real) \<le> 2 ^ n"
  by simp

lemma lit_values:
  "lit 0.005 = Finite (5764607523034235 / 2 ^ 60)"
  "lit 0.1 = Finite (3602879701896397 / 2 ^ 55)"
  "lit 5 = Finite 5"
proof -
  have a: "\<bar>x\<bar> \<le> 5 \<Longrightarrow> \<bar>x\<bar> \<le> 2 ^ 1022" for x :: real
  proof -
    assume "\<bar>x\<bar> \<le> 5"
    also have "(5::real) \<le> 2 ^ 3" by simp
    also have "(2::real) ^ 3 \<le> 2 ^ 1022" by (rule pow_le) simp
    finally show ?thesis .
  qed
  have "to_double 0.005 = Finite (rnd64 0.005)"
    by (rule to_double_Finite, rule a) simp
  then show "lit 0.005 = Finite (5764607523034235 / 2 ^ 60)"
    unfolding lit_def lit_0005 .
  have "to_double 0.1 = Finite (rnd64 0.1)"
    by (rule to_double_Finite, rule a) simp
  then show "lit 0.1 = Finite (3602879701896397 / 2 ^ 55)"
    unfolding lit_def lit_01 .
  have "to_double 5 = Finite (rnd64 5)"
    by (rule to_double_Finite, rule a) simp
  then show "lit 5 = Finite 5"
    unfolding lit_def rnd64_5 .
qed

subsection \<open>Rounding error of the zoom about the pointer\<close>

lemma fixed_point_error:
  fixes p t sc ns e1 f g t' :: real
  assumes sc: "1/10 \<le> sc" "sc \<le> 5" and ns: "1/10 \<le> ns" "ns \<le> 5"
    and e1: "\<bar>e1 - (p - t)\<bar> \<le> \<bar>p - t\<bar> / 2 ^ 53 + 1 / 2 ^ 1075"
    and f: "\<bar>f - ns / sc\<bar> \<le> (ns / sc) / 2 ^ 53"
    and g: "\<bar>g - e1 * f\<bar> \<le> \<bar>e1 * f\<bar> / 2 ^ 53 + 1 / 2 ^ 1075"
    and t': "\<bar>t' - (p - g)\<bar> \<le> \<bar>p - g\<bar> / 2 ^ 53 + 1 / 2 ^ 1075"
  shows "\<bar>(p - t') / ns - (p - t) / sc\<bar> \<le> (\<bar>p\<bar> + \<bar>t\<bar>) / 2 ^ 47 + 1 / 2 ^ 1069"
proof -
  define u :: real where "u = 1 / 2 ^ 53"
  define h :: real where "h = 1 / 2 ^ 1075"
  define D where "D = \<bar>p - t\<bar>"
  define K where "K = \<bar>f\<bar> / ns"
  define E where "E = \<bar>e1\<bar>"
  define N where "N = 1 / ns"
  define S where "S = 1 / sc"
  define X where "X = E * K"
  have u: "0 \<le> u" and h: "0 \<le> h" by (simp_all add: u_def h_def)
  have ns0: "0 < ns" and sc0: "0 < sc" using ns sc by auto
  have D: "0 \<le> D" "D \<le> \<bar>p\<bar> + \<bar>t\<bar>" by (auto simp: D_def)
  have N: "0 \<le> N" "N \<le> 10" using ns by (auto simp: N_def field_simps)
  have S: "0 \<le> S" "S \<le> 10" using sc by (auto simp: S_def field_simps)
  have e1': "\<bar>e1 - (p - t)\<bar> \<le> D * u + h" using e1 by (simp add: u_def h_def D_def)
  have f': "\<bar>f - ns / sc\<bar> \<le> (ns / sc) * u" using f by (simp add: u_def)
  have g': "\<bar>g - e1 * f\<bar> \<le> \<bar>e1 * f\<bar> * u + h" using g by (simp add: u_def h_def)
  have t'': "\<bar>t' - (p - g)\<bar> \<le> \<bar>p - g\<bar> * u + h" using t' by (simp add: u_def h_def)
  have divN: "a / ns = a * N" for a by (simp add: N_def)
  have E: "0 \<le> E" "E \<le> D + (D * u + h)"
    using e1' unfolding E_def D_def by linarith+
  have nsS: "(ns / sc) * N = S" using ns0 by (simp add: N_def S_def)
  have K: "0 \<le> K" "K \<le> S + S * u"
  proof -
    show "0 \<le> K" using ns0 by (simp add: K_def)
    have "0 \<le> ns / sc" using ns0 sc0 by simp
    then have fb: "\<bar>f\<bar> \<le> ns / sc + (ns / sc) * u"
      using f' by (rule abs_le_via)
    have "K = \<bar>f\<bar> * N" by (simp add: K_def N_def)
    also have "\<dots> \<le> (ns / sc + (ns / sc) * u) * N"
      using fb N by (intro mult_right_mono) auto
    also have "\<dots> = (ns / sc) * N + ((ns / sc) * N) * u" by (simp add: algebra_simps)
    also have "\<dots> = S + S * u" unfolding nsS ..
    finally show "K \<le> S + S * u" .
  qed
  have K10: "K \<le> 10 + 10 * u"
  proof -
    have "S * u \<le> 10 * u" using S u by (intro mult_right_mono) auto
    with K S show ?thesis by linarith
  qed
  have X: "0 \<le> X" "X \<le> (D + (D * u + h)) * (10 + 10 * u)"
  proof -
    show "0 \<le> X" using E K by (simp add: X_def)
    have "X \<le> E * (10 + 10 * u)"
      unfolding X_def using K10 E by (intro mult_left_mono) auto
    also have "\<dots> \<le> (D + (D * u + h)) * (10 + 10 * u)"
      using E u by (intro mult_right_mono) auto
    finally show "X \<le> (D + (D * u + h)) * (10 + 10 * u)" .
  qed
  have ef: "\<bar>e1 * f\<bar> * N = X"
    by (simp add: abs_mult E_def K_def X_def N_def)
  have T4: "\<bar>(p - t) * (f - ns / sc)\<bar> * N \<le> 10 * (D * u)"
  proof -
    have "\<bar>(p - t) * (f - ns / sc)\<bar> * N = D * (\<bar>f - ns / sc\<bar> * N)"
      by (simp add: abs_mult D_def)
    also have "\<dots> \<le> D * (((ns / sc) * u) * N)"
      using f' N D by (intro mult_left_mono mult_right_mono) auto
    also have "\<dots> = D * (((ns / sc) * N) * u)" by (simp add: algebra_simps)
    also have "\<dots> = D * (S * u)" unfolding nsS ..
    also have "\<dots> \<le> D * (10 * u)"
      using S u D by (intro mult_left_mono mult_right_mono) auto
    finally show ?thesis by simp
  qed
  have T3: "\<bar>(e1 - (p - t)) * f\<bar> * N \<le> (D * u + h) * (10 + 10 * u)"
  proof -
    have "\<bar>(e1 - (p - t)) * f\<bar> * N = \<bar>e1 - (p - t)\<bar> * K"
      by (simp add: abs_mult K_def N_def)
    also have "\<dots> \<le> (D * u + h) * (10 + 10 * u)"
      using e1' K K10 D u h by (intro mult_mono) auto
    finally show ?thesis .
  qed
  have T2: "\<bar>g - e1 * f\<bar> * N \<le> X * u + 10 * h"
  proof -
    have "\<bar>g - e1 * f\<bar> * N \<le> (\<bar>e1 * f\<bar> * u + h) * N"
      using g' N by (intro mult_right_mono) auto
    also have "\<dots> = (\<bar>e1 * f\<bar> * N) * u + h * N" by (simp add: algebra_simps)
    also have "\<dots> \<le> X * u + h * 10"
    proof -
      have "h * N \<le> h * 10" using N h by (intro mult_left_mono) auto
      then show ?thesis unfolding ef by simp
    qed
    finally show ?thesis by simp
  qed
  have G: "\<bar>g\<bar> * N \<le> X + (X * u + 10 * h)"
  proof -
    have "\<bar>g\<bar> \<le> \<bar>e1 * f\<bar> + \<bar>g - e1 * f\<bar>" by simp
    then have "\<bar>g\<bar> * N \<le> (\<bar>e1 * f\<bar> + \<bar>g - e1 * f\<bar>) * N"
      using N by (intro mult_right_mono) auto
    also have "\<dots> = X + \<bar>g - e1 * f\<bar> * N" using ef by (simp add: algebra_simps)
    finally show ?thesis using T2 by linarith
  qed
  have PG: "\<bar>p - g\<bar> * N \<le> 10 * \<bar>p\<bar> + (X + (X * u + 10 * h))"
  proof -
    have "\<bar>p - g\<bar> \<le> \<bar>p\<bar> + \<bar>g\<bar>" by simp
    then have "\<bar>p - g\<bar> * N \<le> (\<bar>p\<bar> + \<bar>g\<bar>) * N"
      using N by (intro mult_right_mono) auto
    also have "\<dots> = \<bar>p\<bar> * N + \<bar>g\<bar> * N" by (simp add: algebra_simps)
    also have "\<dots> \<le> \<bar>p\<bar> * 10 + (X + (X * u + 10 * h))"
    proof -
      have "\<bar>p\<bar> * N \<le> \<bar>p\<bar> * 10" using N by (intro mult_left_mono) auto
      with G show ?thesis by linarith
    qed
    finally show ?thesis by simp
  qed
  have T1: "\<bar>t' - (p - g)\<bar> * N \<le> (10 * \<bar>p\<bar> + (X + (X * u + 10 * h))) * u + 10 * h"
  proof -
    have "\<bar>t' - (p - g)\<bar> * N \<le> (\<bar>p - g\<bar> * u + h) * N"
      using t'' N by (intro mult_right_mono) auto
    also have "\<dots> = (\<bar>p - g\<bar> * N) * u + h * N" by (simp add: algebra_simps)
    also have "\<dots> \<le> (10 * \<bar>p\<bar> + (X + (X * u + 10 * h))) * u + h * 10"
    proof -
      have "h * N \<le> h * 10" using N h by (intro mult_left_mono) auto
      moreover have "(\<bar>p - g\<bar> * N) * u \<le> (10 * \<bar>p\<bar> + (X + (X * u + 10 * h))) * u"
        using PG u by (intro mult_right_mono) auto
      ultimately show ?thesis by linarith
    qed
    finally show ?thesis by simp
  qed
  have tri: "\<bar>- a + b + c + d\<bar> \<le> \<bar>a\<bar> + \<bar>b\<bar> + \<bar>c\<bar> + \<bar>d\<bar>" for a b c d :: real
    by linarith
  have split: "(p - t') / ns - (p - t) / sc =
      (- (t' - (p - g)) + (g - e1 * f) + (e1 - (p - t)) * f + (p - t) * (f - ns / sc)) * N"
    using ns0 sc0 by (simp add: N_def field_simps)
  have "\<bar>(p - t') / ns - (p - t) / sc\<bar> \<le>
      (\<bar>t' - (p - g)\<bar> + \<bar>g - e1 * f\<bar> + \<bar>(e1 - (p - t)) * f\<bar> + \<bar>(p - t) * (f - ns / sc)\<bar>) * N"
  proof -
    have "\<bar>- (t' - (p - g)) + (g - e1 * f) + (e1 - (p - t)) * f + (p - t) * (f - ns / sc)\<bar>
        \<le> \<bar>t' - (p - g)\<bar> + \<bar>g - e1 * f\<bar> + \<bar>(e1 - (p - t)) * f\<bar> + \<bar>(p - t) * (f - ns / sc)\<bar>"
      by (rule tri)
    then show ?thesis
      unfolding split abs_mult using N by (intro mult_mono) auto
  qed
  also have "\<dots> = \<bar>t' - (p - g)\<bar> * N + \<bar>g - e1 * f\<bar> * N + \<bar>(e1 - (p - t)) * f\<bar> * N
      + \<bar>(p - t) * (f - ns / sc)\<bar> * N"
    by (simp add: algebra_simps)
  also have "\<dots> \<le> ((10 * \<bar>p\<bar> + (X + (X * u + 10 * h))) * u + 10 * h)
      + (X * u + 10 * h) + (D * u + h) * (10 + 10 * u) + 10 * (D * u)"
    using T1 T2 T3 T4 by linarith
  also have "\<dots> \<le> (\<bar>p\<bar> + \<bar>t\<bar>) / 2 ^ 47 + 64 * h"
    using X D h unfolding u_def by simp argo
  also have "64 * h = 1 / 2 ^ 1069"
    by (simp add: h_def)
  finally show ?thesis .
qed

lemma axis_error:
  fixes p t sc ns :: real
  assumes sc: "1/10 \<le> sc" "sc \<le> 5" and ns: "1/10 \<le> ns" "ns \<le> 5"
    and p: "\<bar>p\<bar> \<le> 2 ^ 1003" and t: "\<bar>t\<bar> \<le> 2 ^ 1000"
  shows "\<exists>t'. d_sub (Finite p) (d_mul (d_sub (Finite p) (Finite t)) (d_div (Finite ns) (Finite sc)))
               = Finite t' \<and>
              \<bar>(p - t') / ns - (p - t) / sc\<bar> \<le> (\<bar>p\<bar> + \<bar>t\<bar>) / 2 ^ 47 + 1 / 2 ^ 1069"
proof -
  define f where "f = rnd64 (ns / sc)"
  define e1 where "e1 = rnd64 (p - t)"
  define g where "g = rnd64 (e1 * f)"
  define t' where "t' = rnd64 (p - g)"
  have sc0: "0 < sc" and ns0: "0 < ns" using sc ns by auto
  have q: "1/50 \<le> ns / sc" "ns / sc \<le> 50"
  proof -
    have "1/50 * sc \<le> ns" using sc ns by linarith
    then show "1/50 \<le> ns / sc" using sc0 by (simp add: field_simps)
    have "ns \<le> 50 * sc" using sc ns by linarith
    then show "ns / sc \<le> 50" using sc0 by (simp add: field_simps)
  qed
  have P: "(2::real) ^ 1003 \<le> 2 ^ 1022" "(2::real) ^ 1000 \<le> 2 ^ 1003" "(1::real) \<le> 2 ^ 1003"
    by (simp_all add: pow_le)
  \<comment> \<open>the scale factor\<close>
  have fq: "d_div (Finite ns) (Finite sc) = Finite f"
  proof -
    have "\<bar>ns / sc\<bar> \<le> 2 ^ 1022"
    proof -
      have "\<bar>ns / sc\<bar> \<le> 50" using q by simp
      also have "\<dots> \<le> (2::real) ^ 6" by simp
      also have "\<dots> \<le> 2 ^ 1022" by (rule pow_le) simp
      finally show ?thesis .
    qed
    then show ?thesis using sc0 by (simp add: to_double_Finite f_def)
  qed
  have ferr: "\<bar>f - ns / sc\<bar> \<le> (ns / sc) / 2 ^ 53"
  proof -
    have "(2::real) powr (- 1022) \<le> 1 / 50"
    proof -
      have "(2::real) powr (- 1022) \<le> 2 powr (- 6)" by (intro powr_mono) auto
      also have "\<dots> = 1 / 2 ^ 6" by (simp add: powr_minus_divide)
      also have "\<dots> \<le> 1 / 50" by simp
      finally show ?thesis .
    qed
    then have "2 powr (- 1022) \<le> \<bar>ns / sc\<bar>" using q by linarith
    from rnd64_error_normal [OF this] show ?thesis using q by (simp add: f_def)
  qed
  have fb: "\<bar>f\<bar> \<le> 101" using rnd64_small [of "ns / sc" 50] q by (simp add: f_def)
  \<comment> \<open>the distance to the pointer\<close>
  have d1: "\<bar>p - t\<bar> \<le> 2 ^ 1004"
  proof -
    have "\<bar>p - t\<bar> \<le> 2 ^ 1003 + 2 ^ 1003" using p t P by linarith
    then show ?thesis by simp
  qed
  have e1q: "d_sub (Finite p) (Finite t) = Finite e1"
  proof -
    have "(2::real) ^ 1004 \<le> 2 ^ 1022" by (rule pow_le) simp
    then show ?thesis using d1 by (simp add: to_double_Finite e1_def)
  qed
  have e1b: "\<bar>e1\<bar> \<le> 2 ^ 1006"
  proof -
    have "\<bar>e1\<bar> \<le> 2 * 2 ^ 1004 + 1" using rnd64_small [OF d1] by (simp add: e1_def)
    also have "\<dots> \<le> 2 * (2::real) ^ 1004 + 2 * 2 ^ 1004" by simp
    finally show ?thesis by simp
  qed
  \<comment> \<open>the product\<close>
  have pb: "\<bar>e1 * f\<bar> \<le> 2 ^ 1013"
  proof -
    have "\<bar>e1 * f\<bar> \<le> 2 ^ 1006 * 101"
      unfolding abs_mult using e1b fb by (intro mult_mono) auto
    also have "\<dots> \<le> (2::real) ^ 1006 * 2 ^ 7" by simp
    finally show ?thesis by (simp add: power_add [symmetric])
  qed
  have gq: "d_mul (Finite e1) (Finite f) = Finite g"
  proof -
    have "(2::real) ^ 1013 \<le> 2 ^ 1022" by (rule pow_le) simp
    then show ?thesis using pb by (simp add: to_double_Finite g_def)
  qed
  have gb: "\<bar>g\<bar> \<le> 2 ^ 1015"
  proof -
    have "\<bar>g\<bar> \<le> 2 * 2 ^ 1013 + 1" using rnd64_small [OF pb] by (simp add: g_def)
    also have "\<dots> \<le> 2 * (2::real) ^ 1013 + 2 * 2 ^ 1013" by simp
    finally show ?thesis by simp
  qed
  have d2: "\<bar>p - g\<bar> \<le> 2 ^ 1016"
  proof -
    have "(2::real) ^ 1003 \<le> 2 ^ 1015" by (rule pow_le) simp
    then have "\<bar>p - g\<bar> \<le> 2 ^ 1015 + 2 ^ 1015" using p gb by linarith
    then show ?thesis by simp
  qed
  have tq: "d_sub (Finite p) (Finite g) = Finite t'"
  proof -
    have "(2::real) ^ 1016 \<le> 2 ^ 1022" by (rule pow_le) simp
    then show ?thesis using d2 by (simp add: to_double_Finite t'_def)
  qed
  have "\<bar>(p - t') / ns - (p - t) / sc\<bar> \<le> (\<bar>p\<bar> + \<bar>t\<bar>) / 2 ^ 47 + 1 / 2 ^ 1069"
    using sc ns
  proof (rule fixed_point_error)
    show "\<bar>e1 - (p - t)\<bar> \<le> \<bar>p - t\<bar> / 2 ^ 53 + 1 / 2 ^ 1075"
      unfolding e1_def by (rule rnd64_error)
    show "\<bar>f - ns / sc\<bar> \<le> ns / sc / 2 ^ 53" by (rule ferr)
    show "\<bar>g - e1 * f\<bar> \<le> \<bar>e1 * f\<bar> / 2 ^ 53 + 1 / 2 ^ 1075"
      unfolding g_def by (rule rnd64_error)
    show "\<bar>t' - (p - g)\<bar> \<le> \<bar>p - g\<bar> / 2 ^ 53 + 1 / 2 ^ 1075"
      unfolding t'_def by (rule rnd64_error)
  qed
  then show ?thesis
    unfolding fq e1q gq tq by blast
qed

subsection \<open>The sample wheel notch\<close>

lemma to_double_at:
  assumes "2 powr of_int k \<le> \<bar>x\<bar>" and "\<bar>x\<bar> < 2 powr of_int (k + 1)"
    and "- 1022 \<le> k" and "k \<le> 1000"
    and "of_int (round_half_even (x / 2 powr of_int (k - 52))) * 2 powr of_int (k - 52) = y"
  shows "to_double x = Finite y"
proof -
  have "(2::real) powr of_int (k + 1) \<le> 2 powr of_int 1022"
    using assms(4) by (intro powr_mono) auto
  also have "\<dots> = 2 ^ 1022" by (simp add: powr_realpow)
  finally have "\<bar>x\<bar> \<le> 2 ^ 1022" using assms(2) by linarith
  then have "to_double x = Finite (rnd64 x)" by (rule to_double_Finite)
  also have "rnd64 x = y"
    using rnd64_at [OF assms(1-3)] assms(5) by simp
  finally show ?thesis .
qed

lemma wheel_steps:
  "to_double (105 - 5) = Finite 100"
  "to_double (55 - 5) = Finite 50"
  "to_double (- 20 * - (5764607523034235 / 2 ^ 60)) = Finite (3602879701896397 / 2 ^ 55)"
  "to_double (1 + 3602879701896397 / 2 ^ 55) = Finite (2476979795053773 / 2 ^ 51)"
  "to_double (2476979795053773 / 2 ^ 51 / 1) = Finite (2476979795053773 / 2 ^ 51)"
  "to_double (100 - 10) = Finite 90"
  "to_double (50 - 20) = Finite 30"
  "to_double (90 * (2476979795053773 / 2 ^ 51)) = Finite (99 + 1 / 2 ^ 46)"
  "to_double (30 * (2476979795053773 / 2 ^ 51)) = Finite 33"
  "to_double (100 - (99 + 1 / 2 ^ 46)) = Finite (1 - 1 / 2 ^ 46)"
  "to_double (50 - 33) = Finite 17"
            apply (rule to_double_at [where k = 6]; simp add: round_half_even_def powr_minus_divide)
           apply (rule to_double_at [where k = 5]; simp add: round_half_even_def powr_minus_divide)
          apply (rule to_double_at [where k = "- 4"]; simp add: round_half_even_def powr_minus_divide)
         apply (rule to_double_at [where k = 0]; simp add: round_half_even_def powr_minus_divide)
        apply (rule to_double_at [where k = 0]; simp add: round_half_even_def powr_minus_divide)
       apply (rule to_double_at [where k = 6]; simp add: round_half_even_def powr_minus_divide)
      apply (rule to_double_at [where k = 4]; simp add: round_half_even_def powr_minus_divide)
     apply (rule to_double_at [where k = 6]; simp add: round_half_even_def powr_minus_divide)
    apply (rule to_double_at [where k = 5]; simp add: round_half_even_def powr_minus_divide)
   apply (rule to_double_at [where k = "- 1"]; simp add: round_half_even_def powr_minus_divide)
  apply (rule to_double_at [where k = 4]; simp add: round_half_even_def powr_minus_divide)
  done

lemma wheel_sample_result:
  "handleWheel64 (Some wheel_rect) wheel_tick wheel_start =
     \<lparr>x64 = Finite (1 - 1 / 2 ^ 46), y64 = Finite 17,
      scale64 = Finite (2476979795053773 / 2 ^ 51)\<rparr>"
proof -
  have m: "max (2476979795053773 / 2 ^ 51) (3602879701896397 / 2 ^ 55) = (2476979795053773 / 2 ^ 51 :: real)"
    "min (2476979795053773 / 2 ^ 51) 5 = (2476979795053773 / 2 ^ 51 :: real)"
    by simp_all
  have d1: "d_div (Finite a) (Finite 1) = to_double (a / 1)" for a
    by simp
  show ?thesis
    unfolding handleWheel64_def Let_def wheel_rect_def wheel_tick_def wheel_start_def
    by (simp only: option.case dom_rect64.simps wheel_event64.simps transform64.simps
          d_sub_Finite d_neg.simps d_mul.simps d_add.simps d1 d_max.simps d_min.simps
          lit_values wheel_steps m)
qed

subsection \<open>Discovery of children\<close>

lemma inv_addChildEdge: "discovery_inv n acc \<Longrightarrow> discovery_inv n (addChildEdge n acc e)"
  by (auto simp: discovery_inv_def addChildEdge_def set_set_add distinct_set_add)

lemma inv_addOutgoingDependency:
  "discovery_inv n acc \<Longrightarrow> discovery_inv n (addOutgoingDependency ns n acc dep)"
  by (auto simp: discovery_inv_def addOutgoingDependency_def set_set_add distinct_set_add
           split: option.splits)

lemma inv_addImport: "discovery_inv n acc \<Longrightarrow> discovery_inv n (addImport ns n acc imp)"
  by (auto simp: discovery_inv_def addImport_def set_set_add distinct_set_add
           split: option.splits)

lemma inv_discoverChildren: "discovery_inv n (discoverChildren d n)"
proof -
  have start: "discovery_inv n ([], [])"
    by (simp add: discovery_inv_def)
  have edges: "discovery_inv n (foldl (addChildEdge n) ([], []) (data_edges d))"
    using start by (rule foldl_invariant) (rule inv_addChildEdge)
  have deps: "discovery_inv n (foldl (addOutgoingDependency ns n) acc ds)"
    if "discovery_inv n acc" for ns acc ds
    using that by (rule foldl_invariant) (rule inv_addOutgoingDependency)
  have imps: "discovery_inv n (foldl (addImport ns n) acc ms)"
    if "discovery_inv n acc" for ns acc ms
    using that by (rule foldl_invariant) (rule inv_addImport)
  show ?thesis
    unfolding discoverChildren_def Let_def
    by (simp add: edges deps imps split: option.splits)
qed

lemma distinct_nodesToReveal: "distinct (nodesToReveal d n np)"
  using inv_discoverChildren [of n d] by (simp add: nodesToReveal_def discovery_inv_def)

subsection \<open>Placement touches the revealed ids only\<close>

lemma placeNode_other: "k \<noteq> snd entry \<Longrightarrow> placeNode a r sa st m entry k = m k"
  by (simp add: placeNode_def Let_def)

lemma fold_placeNode_other:
  "k \<notin> snd ` set xs \<Longrightarrow> foldl (placeNode a r sa st) m xs k = m k"
  by (induction xs arbitrary: m) (auto simp: placeNode_other)

lemma placeRevealed_other: "k \<notin> set toReveal \<Longrightarrow> placeRevealed np n toReveal k = np k"
proof -
  assume k: "k \<notin> set toReveal"
  have "snd ` set (enumerate 0 toReveal) = set toReveal"
    by (metis list.set_map map_snd_enumerate)
  with k show ?thesis
    by (simp add: placeRevealed_def Let_def fold_placeNode_other)
qed

subsection \<open>The sample expansion\<close>

lemma includes_Q: "js_includes ''./src/Q.tsx'' ''src/Q.tsx''"
  unfolding js_includes_def by code_simp

lemma not_includes_App: "\<not> js_includes ''./src/Q.tsx'' ''src/App.tsx''"
  unfolding js_includes_def by code_simp

lemma discover_sample:
  "discoverChildren expansion_data anchor_node =
     ([''B'', ''P'', ''Q''], [''A-B'', ''A-P'', ''A-Q''])"
  by (simp add: discoverChildren_def expansion_data_def anchor_node_def link_def plain_node_def
      addChildEdge_def addOutgoingDependency_def addImport_def set_add_def edgeKey_def
      matchesDependency_def matchesImport_def importNameOf_def js_or_def truthy_def
      includes_Q not_includes_App)

section \<open>Claims\<close>

text \<open>
  Claim C1, as amended. Zoom at the pointer keeps the graph-space point under the pointer
  up to the rounding of double-precision arithmetic. For a transform whose scale lies in
  \<open>[0.1, 5]\<close> and finite inputs of magnitude at most \<open>2\<^sup>1\<^sup>0\<^sup>0\<^sup>0\<close>, \<^const>\<open>handleWheel64\<close>
  stores finite numbers: \<open>newScale = min (max (scale + delta) 0.1) 5\<close>, which lies in
  \<open>[0.1, 5]\<close>, and \<open>translate' = p - (p - translate) * (newScale / scale)\<close>, each operation
  rounded to the nearest double; and on each axis \<open>(p - translate') / newScale\<close> differs
  from \<open>(p - translate) / scale\<close> by at most \<open>(\<bar>p\<bar> + \<bar>translate\<bar>) / 2\<^sup>4\<^sup>7 + 2\<^sup>-\<^sup>1\<^sup>0\<^sup>6\<^sup>9\<close>,
  where \<open>p\<close> is the pointer position that the handler computes.
\<close>

theorem handleWheel64_fixed_point_error:
  fixes tx ty sc cx cy dy l tp :: real
  assumes "1/10 \<le> sc" and "sc \<le> 5"
    and "\<bar>tx\<bar> \<le> 2 ^ 1000" and "\<bar>ty\<bar> \<le> 2 ^ 1000"
    and "\<bar>cx\<bar> \<le> 2 ^ 1000" and "\<bar>cy\<bar> \<le> 2 ^ 1000"
    and "\<bar>l\<bar> \<le> 2 ^ 1000" and "\<bar>tp\<bar> \<le> 2 ^ 1000" and "\<bar>dy\<bar> \<le> 2 ^ 1000"
  shows "\<exists>px py tx' ty' ns.
      d_sub (Finite cx) (Finite l) = Finite px \<and>
      d_sub (Finite cy) (Finite tp) = Finite py \<and>
      handleWheel64 (Some \<lparr>left64 = Finite l, top64 = Finite tp\<rparr>)
        \<lparr>clientX64 = Finite cx, clientY64 = Finite cy, deltaY64 = Finite dy\<rparr>
        \<lparr>x64 = Finite tx, y64 = Finite ty, scale64 = Finite sc\<rparr>
        = \<lparr>x64 = Finite tx', y64 = Finite ty', scale64 = Finite ns\<rparr> \<and>
      Finite ns = d_min (d_max (d_add (Finite sc) (d_mul (Finite dy) (d_neg (lit 0.005))))
                          (lit 0.1)) (lit 5) \<and>
      1/10 \<le> ns \<and> ns \<le> 5 \<and>
      Finite tx' = d_sub (Finite px)
                     (d_mul (d_sub (Finite px) (Finite tx)) (d_div (Finite ns) (Finite sc))) \<and>
      Finite ty' = d_sub (Finite py)
                     (d_mul (d_sub (Finite py) (Finite ty)) (d_div (Finite ns) (Finite sc))) \<and>
      \<bar>(px - tx') / ns - (px - tx) / sc\<bar> \<le> (\<bar>px\<bar> + \<bar>tx\<bar>) / 2 ^ 47 + 1 / 2 ^ 1069 \<and>
      \<bar>(py - ty') / ns - (py - ty) / sc\<bar> \<le> (\<bar>py\<bar> + \<bar>ty\<bar>) / 2 ^ 47 + 1 / 2 ^ 1069"
proof -
  define c :: real where "c = 5764607523034235 / 2 ^ 60"
  define dl where "dl = rnd64 (dy * - c)"
  define sg where "sg = rnd64 (sc + dl)"
  define ns where "ns = min (max sg (3602879701896397 / 2 ^ 55)) 5"
  define px where "px = rnd64 (cx - l)"
  define py where "py = rnd64 (cy - tp)"
  have big: "(2::real) ^ 1000 \<le> 2 ^ 1022" "(2::real) ^ 1001 \<le> 2 ^ 1022"
    "(2::real) ^ 1003 \<le> 2 ^ 1022" "(1::real) \<le> 2 ^ 1000"
    by (simp_all add: pow_le)
  \<comment> \<open>the pointer\<close>
  have pointer: "\<bar>a - b\<bar> \<le> 2 ^ 1001" if "\<bar>a\<bar> \<le> 2 ^ 1000" "\<bar>b\<bar> \<le> 2 ^ 1000" for a b :: real
  proof -
    have "\<bar>a - b\<bar> \<le> 2 ^ 1000 + 2 ^ 1000" using that by linarith
    then show ?thesis by simp
  qed
  have rb: "\<bar>rnd64 x\<bar> \<le> 2 ^ 1003" if "\<bar>x\<bar> \<le> 2 ^ 1001" for x
  proof -
    have "\<bar>rnd64 x\<bar> \<le> 2 * 2 ^ 1001 + 1" using rnd64_small [OF that] .
    also have "\<dots> \<le> 2 * (2::real) ^ 1001 + 2 * 2 ^ 1001" by simp
    finally show ?thesis by simp
  qed
  have pxq: "d_sub (Finite cx) (Finite l) = Finite px"
    using pointer [OF assms(5) assms(7)] big by (simp add: to_double_Finite px_def)
  have pyq: "d_sub (Finite cy) (Finite tp) = Finite py"
    using pointer [OF assms(6) assms(8)] big by (simp add: to_double_Finite py_def)
  have pxb: "\<bar>px\<bar> \<le> 2 ^ 1003"
    unfolding px_def using pointer [OF assms(5) assms(7)] by (rule rb)
  have pyb: "\<bar>py\<bar> \<le> 2 ^ 1003"
    unfolding py_def using pointer [OF assms(6) assms(8)] by (rule rb)
  \<comment> \<open>the new scale\<close>
  have c: "0 \<le> c" "c \<le> 1" by (simp_all add: c_def)
  have dc: "\<bar>dy * - c\<bar> \<le> 2 ^ 1000"
  proof -
    have "\<bar>dy * - c\<bar> = \<bar>dy\<bar> * c" using c by (simp add: abs_mult)
    also have "\<dots> \<le> 2 ^ 1000 * 1"
      using assms(9) c by (intro mult_mono) auto
    finally show ?thesis by simp
  qed
  have dlq: "d_mul (Finite dy) (d_neg (lit 0.005)) = Finite dl"
  proof -
    have "d_mul (Finite dy) (d_neg (lit 0.005)) = to_double (dy * - c)"
      unfolding lit_values(1) c_def by (simp only: d_neg.simps d_mul.simps)
    also have "\<dots> = Finite (rnd64 (dy * - c))"
      using dc big by (intro to_double_Finite) linarith
    finally show ?thesis by (simp only: dl_def)
  qed
  have dlb: "\<bar>dl\<bar> \<le> 2 ^ 1003"
  proof -
    have "(2::real) ^ 1000 \<le> 2 ^ 1001" by (rule pow_le) simp
    with dc have "\<bar>dy * - c\<bar> \<le> 2 ^ 1001" by linarith
    then show ?thesis unfolding dl_def by (rule rb)
  qed
  have sgq: "d_add (Finite sc) (Finite dl) = Finite sg"
  proof -
    have "\<bar>sc + dl\<bar> \<le> 5 + 2 ^ 1003" using assms(1,2) dlb by linarith
    also have "\<dots> \<le> (2::real) ^ 1003 + 2 ^ 1003"
      using one_le_pow [of 1000] by (simp add: power_add [of 2 3 1000, simplified])
    also have "\<dots> = (2::real) ^ 1004" by simp
    also have "\<dots> \<le> 2 ^ 1022" by (rule pow_le) simp
    finally show ?thesis by (simp add: to_double_Finite sg_def)
  qed
  have nsq: "d_min (d_max (d_add (Finite sc) (d_mul (Finite dy) (d_neg (lit 0.005))))
                      (lit 0.1)) (lit 5) = Finite ns"
    unfolding dlq sgq lit_values(2,3) ns_def by (simp only: d_max.simps d_min.simps)
  have c01: "(1::real) / 10 \<le> 3602879701896397 / 2 ^ 55" by simp
  have ns: "1/10 \<le> ns" "ns \<le> 5"
    unfolding ns_def using c01 by linarith+
  \<comment> \<open>the two axes\<close>
  from axis_error [OF assms(1,2) ns pxb assms(3)]
  obtain tx' where tx':
    "d_sub (Finite px) (d_mul (d_sub (Finite px) (Finite tx)) (d_div (Finite ns) (Finite sc)))
       = Finite tx'"
    "\<bar>(px - tx') / ns - (px - tx) / sc\<bar> \<le> (\<bar>px\<bar> + \<bar>tx\<bar>) / 2 ^ 47 + 1 / 2 ^ 1069"
    by blast
  from axis_error [OF assms(1,2) ns pyb assms(4)]
  obtain ty' where ty':
    "d_sub (Finite py) (d_mul (d_sub (Finite py) (Finite ty)) (d_div (Finite ns) (Finite sc)))
       = Finite ty'"
    "\<bar>(py - ty') / ns - (py - ty) / sc\<bar> \<le> (\<bar>py\<bar> + \<bar>ty\<bar>) / 2 ^ 47 + 1 / 2 ^ 1069"
    by blast
  have run: "handleWheel64 (Some \<lparr>left64 = Finite l, top64 = Finite tp\<rparr>)
        \<lparr>clientX64 = Finite cx, clientY64 = Finite cy, deltaY64 = Finite dy\<rparr>
        \<lparr>x64 = Finite tx, y64 = Finite ty, scale64 = Finite sc\<rparr>
        = \<lparr>x64 = Finite tx', y64 = Finite ty', scale64 = Finite ns\<rparr>"
    unfolding handleWheel64_def Let_def
    by (simp only: option.case dom_rect64.simps wheel_event64.simps transform64.simps
          pxq pyq nsq tx'(1) ty'(1))
  show ?thesis
    apply (rule exI [of _ px], rule exI [of _ py], rule exI [of _ tx'], rule exI [of _ ty'],
           rule exI [of _ ns])
    apply (intro conjI)
             apply (rule pxq)
            apply (rule pyq)
           apply (rule run)
          apply (rule nsq [symmetric])
         apply (rule ns(1))
        apply (rule ns(2))
       apply (rule tx'(1) [symmetric])
      apply (rule ty'(1) [symmetric])
     apply (rule tx'(2))
    apply (rule ty'(2))
    done
qed

text \<open>
  The sample notch zooms from 1 to the double nearest 1.1 and stores the translate
  \<open>(1 - 2\<^sup>-\<^sup>4\<^sup>6, 17)\<close>; the point under the pointer moves by less than the bound.
\<close>

theorem handleWheel64_fixed_point_error_witness:
  "(1::real) / 10 \<le> 1 \<and> (1::real) \<le> 5 \<and>
   \<bar>10 :: real\<bar> \<le> 2 ^ 1000 \<and> \<bar>20 :: real\<bar> \<le> 2 ^ 1000 \<and> \<bar>105 :: real\<bar> \<le> 2 ^ 1000 \<and>
   \<bar>55 :: real\<bar> \<le> 2 ^ 1000 \<and> \<bar>5 :: real\<bar> \<le> 2 ^ 1000 \<and> \<bar>- 20 :: real\<bar> \<le> 2 ^ 1000 \<and>
   handleWheel64 (Some wheel_rect) wheel_tick wheel_start =
     \<lparr>x64 = Finite (1 - 1 / 2 ^ 46), y64 = Finite 17,
      scale64 = Finite (2476979795053773 / 2 ^ 51)\<rparr> \<and>
   \<bar>(100 - (1 - 1 / 2 ^ 46)) / (2476979795053773 / 2 ^ 51) - (100 - 10) / 1\<bar>
     \<le> ((\<bar>100\<bar> + \<bar>10\<bar>) / 2 ^ 47 + 1 / 2 ^ 1069 :: real) \<and>
   \<bar>(50 - 17) / (2476979795053773 / 2 ^ 51) - (50 - 20) / 1\<bar>
     \<le> ((\<bar>50\<bar> + \<bar>20\<bar>) / 2 ^ 47 + 1 / 2 ^ 1069 :: real)"
proof -
  have small: "\<bar>x\<bar> \<le> 2 ^ 7 \<Longrightarrow> \<bar>x\<bar> \<le> 2 ^ 1000" for x :: real
  proof -
    assume "\<bar>x\<bar> \<le> 2 ^ 7"
    also have "(2::real) ^ 7 \<le> 2 ^ 1000" by (rule pow_le) simp
    finally show ?thesis .
  qed
  have h: "(1::real) / 10 \<le> 1" "(1::real) \<le> 5"
    "\<bar>10 :: real\<bar> \<le> 2 ^ 1000" "\<bar>20 :: real\<bar> \<le> 2 ^ 1000" "\<bar>105 :: real\<bar> \<le> 2 ^ 1000"
    "\<bar>55 :: real\<bar> \<le> 2 ^ 1000" "\<bar>5 :: real\<bar> \<le> 2 ^ 1000" "\<bar>5 :: real\<bar> \<le> 2 ^ 1000"
    "\<bar>- 20 :: real\<bar> \<le> 2 ^ 1000"
    by (simp, simp, (rule small, simp)+)
  from handleWheel64_fixed_point_error [OF h]
  obtain px py tx' ty' ns where r:
    "d_sub (Finite 105) (Finite 5) = Finite px"
    "d_sub (Finite 55) (Finite 5) = Finite py"
    "handleWheel64 (Some \<lparr>left64 = Finite 5, top64 = Finite 5\<rparr>)
        \<lparr>clientX64 = Finite 105, clientY64 = Finite 55, deltaY64 = Finite (- 20)\<rparr>
        \<lparr>x64 = Finite 10, y64 = Finite 20, scale64 = Finite 1\<rparr>
        = \<lparr>x64 = Finite tx', y64 = Finite ty', scale64 = Finite ns\<rparr>"
    "\<bar>(px - tx') / ns - (px - 10) / 1\<bar> \<le> (\<bar>px\<bar> + \<bar>10\<bar>) / 2 ^ 47 + 1 / 2 ^ 1069"
    "\<bar>(py - ty') / ns - (py - 20) / 1\<bar> \<le> (\<bar>py\<bar> + \<bar>20\<bar>) / 2 ^ 47 + 1 / 2 ^ 1069"
    by blast
  have px: "px = 100" and py: "py = 50"
    using r(1,2) by (simp_all only: d_sub_Finite wheel_steps(1,2) double.inject)
  have "\<lparr>x64 = Finite tx', y64 = Finite ty', scale64 = Finite ns\<rparr> =
     \<lparr>x64 = Finite (1 - 1 / 2 ^ 46), y64 = Finite 17,
      scale64 = Finite (2476979795053773 / 2 ^ 51)\<rparr>"
    using r(3) wheel_sample_result
    by (simp only: wheel_rect_def wheel_tick_def wheel_start_def)
  then have v: "tx' = 1 - 1 / 2 ^ 46" "ty' = 17" "ns = 2476979795053773 / 2 ^ 51"
    by (simp_all only: transform64.simps transform64.iffs double.inject)
  show ?thesis
    using h r(4,5) wheel_sample_result unfolding px py v
    by (intro conjI)
qed

text \<open>
  The claim as stated, with exact equality, fails at the sample notch: the stored
  translate is \<open>1 - 2\<^sup>-\<^sup>4\<^sup>6\<close>, that is 0.9999999999999858, and neither axis keeps its
  graph-space coordinate exactly.
\<close>

theorem handleWheel64_exact_counterexample:
  "handleWheel64 (Some wheel_rect) wheel_tick wheel_start =
     \<lparr>x64 = Finite (1 - 1 / 2 ^ 46), y64 = Finite 17,
      scale64 = Finite (2476979795053773 / 2 ^ 51)\<rparr> \<and>
   d_sub (clientX64 wheel_tick) (left64 wheel_rect) = Finite 100 \<and>
   d_sub (clientY64 wheel_tick) (top64 wheel_rect) = Finite 50 \<and>
   (100 - (1 - 1 / 2 ^ 46)) / (2476979795053773 / 2 ^ 51) \<noteq> ((100 - 10) / 1 :: real) \<and>
   (50 - 17) / (2476979795053773 / 2 ^ 51) \<noteq> ((50 - 20) / 1 :: real)"
proof (intro conjI)
  show "handleWheel64 (Some wheel_rect) wheel_tick wheel_start =
     \<lparr>x64 = Finite (1 - 1 / 2 ^ 46), y64 = Finite 17,
      scale64 = Finite (2476979795053773 / 2 ^ 51)\<rparr>"
    by (rule wheel_sample_result)
  show "d_sub (clientX64 wheel_tick) (left64 wheel_rect) = Finite 100"
    unfolding wheel_tick_def wheel_rect_def
    by (simp only: dom_rect64.simps wheel_event64.simps d_sub_Finite wheel_steps)
  show "d_sub (clientY64 wheel_tick) (top64 wheel_rect) = Finite 50"
    unfolding wheel_tick_def wheel_rect_def
    by (simp only: dom_rect64.simps wheel_event64.simps d_sub_Finite wheel_steps)
  show "(100 - (1 - 1 / 2 ^ 46)) / (2476979795053773 / 2 ^ 51) \<noteq> ((100 - 10) / 1 :: real)"
    by simp
  show "(50 - 17) / (2476979795053773 / 2 ^ 51) \<noteq> ((50 - 20) / 1 :: real)"
    by simp
qed

text \<open>
  Claim C2. The scale stays within \<open>[0.1, 5]\<close>: from a state whose scale is in range, any
  sequence of zoom-in (\<open>+0.2\<close>), zoom-out (\<open>-0.2\<close>) and wheel operations ends in a state
  whose scale is in range; in particular any number of zoom-in calls in a row leaves it at
  most 5 and any number of zoom-out calls in a row leaves it at least 0.1.
\<close>

theorem zoom_run_scale_in_range:
  assumes "scale_in_range s"
  shows "scale_in_range (zoom_run zs s) \<and>
         t_scale (transform (zoom_run (replicate k ZoomIn) s)) \<le> 5 \<and>
         0.1 \<le> t_scale (transform (zoom_run (replicate k ZoomOut) s))"
proof -
  have any: "scale_in_range (zoom_run zs s)"
    using assms by (rule zoom_run_range)
  have up: "scale_in_range (zoom_run (replicate k ZoomIn) s)"
    using assms by (rule zoom_run_range)
  have down: "scale_in_range (zoom_run (replicate k ZoomOut) s)"
    using assms by (rule zoom_run_range)
  from up have "t_scale (transform (zoom_run (replicate k ZoomIn) s)) \<le> 5"
    by (simp add: scale_in_range_def)
  moreover from down have "0.1 \<le> t_scale (transform (zoom_run (replicate k ZoomOut) s))"
    by (simp add: scale_in_range_def)
  ultimately show ?thesis
    using any by simp
qed

text \<open>One hundred zoom-in clicks from scale 1 stop at 5, one hundred zoom-out clicks at 0.1.\<close>

theorem zoom_run_scale_in_range_witness:
  "scale_in_range (state_with Map.empty) \<and>
   scale_in_range (zoom_run [ZoomIn, Wheel None \<lparr>clientX = 0, clientY = 0, deltaY = 3000\<rparr>,
      Wheel (Some \<lparr>rect_left = 0, rect_top = 0\<rparr>) \<lparr>clientX = 0, clientY = 0, deltaY = 3000\<rparr>,
      ZoomOut] (state_with Map.empty)) \<and>
   t_scale (transform (zoom_run (replicate 100 ZoomIn) (state_with Map.empty))) = 5 \<and>
   t_scale (transform (zoom_run (replicate 100 ZoomOut) (state_with Map.empty))) = 0.1"
proof -
  have h: "scale_in_range (state_with Map.empty)"
    by (simp add: scale_in_range_def state_with_def)
  have up: "t_scale (transform (zoom_run (replicate 100 ZoomIn) (state_with Map.empty))) = 5"
    by (simp add: state_with_def handleZoomIn_def Let_def eval_nat_numeral)
  have down: "t_scale (transform (zoom_run (replicate 100 ZoomOut) (state_with Map.empty))) = 0.1"
    by (simp add: state_with_def handleZoomOut_def Let_def eval_nat_numeral)
  show ?thesis
    using zoom_run_scale_in_range [OF h, of
        "[ZoomIn, Wheel None \<lparr>clientX = 0, clientY = 0, deltaY = 3000\<rparr>,
          Wheel (Some \<lparr>rect_left = 0, rect_top = 0\<rparr>) \<lparr>clientX = 0, clientY = 0, deltaY = 3000\<rparr>,
          ZoomOut]" 100] h up down
    by simp
qed

text \<open>
  Claim C3 says that an edge is in the renderable set \<^const>\<open>validEdges\<close> only if both
  endpoints have an entry in the position map that is not the \<open>(0, 0)\<close> sentinel. The
  filter does not ensure it: with \<open>a\<close> placed and no entry for \<open>constructor\<close>, the edge
  from \<open>a\<close> to \<open>constructor\<close> is kept, because the lookup of the missing key yields the
  member that the record inherits from \<^verbatim>\<open>Object.prototype\<close>, which is truthy and whose
  \<^verbatim>\<open>x\<close> and \<^verbatim>\<open>y\<close> are not 0. The edge from \<open>a\<close> to \<open>c\<close>, whose lookup is
  \<^verbatim>\<open>undefined\<close>, is dropped as the comment above the filter intends.
\<close>

theorem validEdges_keeps_inherited_key:
  "[''a'' \<mapsto> pt 100 200] ''constructor'' = None \<and>
   [''a'' \<mapsto> pt 100 200] ''c'' = None \<and>
   validEdges [link ''a'' ''constructor'', link ''a'' ''c''] [''a'' \<mapsto> pt 100 200]
     = [link ''a'' ''constructor'']"
  by (simp add: validEdges_def edgeIsValid_def lookupPosition_def object_prototype_members_def
        prop_x_def prop_y_def is_zero_def zero_js_number_def link_def pt_def Let_def)

text \<open>
  Claim C4, as amended. For a request of the circular layout, the layout effect calls
  \<^verbatim>\<open>createDonutLayout\<close> when there are more than 50 nodes and \<^verbatim>\<open>createCircularLayout\<close>
  when there are between 1 and 50 nodes, and stores the positions that function returns;
  for an empty node list it calls no layout function and leaves the state as it is.
\<close>

theorem layoutEffect_circular_request:
  "(50 < length (data_nodes d) \<longrightarrow>
      layoutCalled (data_nodes d) Circular = Some CallDonutLayout \<and>
      nodePositions (layoutEffect u d viewportSize containerSize Circular g s) =
        createDonutLayout u (data_nodes d)
          \<lparr>pos_x = Num (dim_width viewportSize / 2),
           pos_y = Num (dim_height viewportSize / 2)\<rparr>
          \<lparr>dim_width = dim_width viewportSize * 0.6,
           dim_height = dim_height viewportSize * 0.6\<rparr>) \<and>
   (0 < length (data_nodes d) \<and> length (data_nodes d) \<le> 50 \<longrightarrow>
      layoutCalled (data_nodes d) Circular = Some CallCircularLayout \<and>
      nodePositions (layoutEffect u d viewportSize containerSize Circular g s) =
        createCircularLayout u (data_nodes d)
          \<lparr>pos_x = Num (dim_width viewportSize / 2),
           pos_y = Num (dim_height viewportSize / 2)\<rparr>
          \<lparr>dim_width = dim_width viewportSize * 0.6,
           dim_height = dim_height viewportSize * 0.6\<rparr>) \<and>
   (length (data_nodes d) = 0 \<longrightarrow>
      layoutCalled (data_nodes d) Circular = None \<and>
      layoutEffect u d viewportSize containerSize Circular g s = s)"
  by (simp add: layoutEffect_def layoutCalled_def actualLayout_def layoutBranch_def
        callLayout_def Let_def)

text \<open>
  With 51 nodes the stored positions are those of the donut stand-in, with one node those
  of the circular stand-in.
\<close>

theorem layoutEffect_circular_request_witness:
  "50 < length (data_nodes \<lparr>data_nodes = fifty_one_nodes, data_edges = []\<rparr>) \<and>
   layoutCalled fifty_one_nodes Circular = Some CallDonutLayout \<and>
   nodePositions (layoutEffect stub_layouts \<lparr>data_nodes = fifty_one_nodes, data_edges = []\<rparr>
      viewport_5000 container_800 Circular True (state_with Map.empty)) ''n'' = Some (pt 3 3) \<and>
   0 < length (data_nodes \<lparr>data_nodes = [plain_node ''n''], data_edges = []\<rparr>) \<and>
   length (data_nodes \<lparr>data_nodes = [plain_node ''n''], data_edges = []\<rparr>) \<le> 50 \<and>
   layoutCalled [plain_node ''n''] Circular = Some CallCircularLayout \<and>
   nodePositions (layoutEffect stub_layouts \<lparr>data_nodes = [plain_node ''n''], data_edges = []\<rparr>
      viewport_5000 container_800 Circular True (state_with Map.empty)) ''n'' = Some (pt 1 1)"
proof -
  have len: "length fifty_one_nodes = 51"
    by (simp add: fifty_one_nodes_def)
  have first: "plain_node ''n'' \<in> set fifty_one_nodes"
  proof -
    have "(0::nat) \<in> set [0..<51]" by simp
    then have "plain_node (''n'' @ replicate 0 (CHR ''i'')) \<in> set fifty_one_nodes"
      unfolding fifty_one_nodes_def set_map by (rule imageI)
    then show ?thesis by simp
  qed
  have mem: "''n'' \<in> node_id ` set fifty_one_nodes"
    using first by (force simp: plain_node_def)
  show ?thesis
    using layoutEffect_circular_request [of "\<lparr>data_nodes = fifty_one_nodes, data_edges = []\<rparr>"
            stub_layouts viewport_5000 container_800 True "state_with Map.empty"]
          layoutEffect_circular_request [of "\<lparr>data_nodes = [plain_node ''n''], data_edges = []\<rparr>"
            stub_layouts viewport_5000 container_800 True "state_with Map.empty"]
          mem
    by (simp add: len stub_layouts_def all_at_def plain_node_def)
qed

text \<open>
  The claim as stated, for every node list of at most 50 nodes, fails on the empty list:
  the effect returns before it chooses a layout.
\<close>

theorem layoutCalled_empty_counterexample:
  "length ([] :: node list) \<le> 50 \<and> layoutCalled [] Circular \<noteq> Some CallCircularLayout \<and>
   layoutCalled [] Circular = None"
  by (simp add: layoutCalled_def)

text \<open>
  Claim C6. Expansion only adds: \<^const>\<open>handleExpandNode\<close> leaves the stored position of
  every node that holds a non-sentinel position as it is; when every discovered child of
  the anchor already holds a non-sentinel position the position map is unchanged; and in
  every case the highlight set becomes the anchor together with all discovered ids, with
  the keys of the edges from the anchor to them.
\<close>

theorem handleExpandNode_additive:
  "(nodePositions s k = Some p \<and> \<not> sentinel p
      \<longrightarrow> nodePositions (handleExpandNode d n s) k = Some p) \<and>
   ((\<forall>c \<in> set (fst (discoverChildren d n)).
        \<exists>q. nodePositions s c = Some q \<and> \<not> sentinel q)
      \<longrightarrow> nodePositions (handleExpandNode d n s) = nodePositions s) \<and>
   set (hp_nodes (highlightedPath (handleExpandNode d n s)))
     = insert (node_id n) (set (fst (discoverChildren d n))) \<and>
   set (hp_edges (highlightedPath (handleExpandNode d n s)))
     = (\<lambda>c. node_id n @ ''-'' @ c) ` set (fst (discoverChildren d n))"
proof (intro conjI impI)
  assume a: "nodePositions s k = Some p \<and> \<not> sentinel p"
  then have "\<not> needsReveal (nodePositions s) k"
    by (simp add: needsReveal_Some)
  then have "k \<notin> set (nodesToReveal d n (nodePositions s))"
    by (simp add: nodesToReveal_def)
  then show "nodePositions (handleExpandNode d n s) k = Some p"
    using a by (simp add: handleExpandNode_def Let_def placeRevealed_other)
next
  assume placed: "\<forall>c \<in> set (fst (discoverChildren d n)).
                    \<exists>q. nodePositions s c = Some q \<and> \<not> sentinel q"
  have "nodesToReveal d n (nodePositions s) = []"
    unfolding nodesToReveal_def filter_empty_conv
    using placed by (auto simp: needsReveal_Some)
  then show "nodePositions (handleExpandNode d n s) = nodePositions s"
    by (simp add: handleExpandNode_def Let_def placeRevealed_def)
next
  show "set (hp_nodes (highlightedPath (handleExpandNode d n s)))
          = insert (node_id n) (set (fst (discoverChildren d n)))"
    by (simp add: handleExpandNode_def Let_def set_new_Set)
next
  show "set (hp_edges (highlightedPath (handleExpandNode d n s)))
          = (\<lambda>c. node_id n @ ''-'' @ c) ` set (fst (discoverChildren d n))"
    using inv_discoverChildren [of n d]
    by (simp add: handleExpandNode_def Let_def discovery_inv_def edgeKey_def)
qed

text \<open>
  Expanding \<open>A\<close> leaves the placed \<open>B\<close> at \<open>(700, 1000)\<close>; expanding \<open>A\<close> again once
  \<open>B\<close>, \<open>P\<close> and \<open>Q\<close> are placed changes no position and highlights \<open>A\<close>, \<open>B\<close>, \<open>P\<close>, \<open>Q\<close>.
\<close>

theorem handleExpandNode_additive_witness:
  "nodePositions (state_with before_expansion) ''B'' = Some (pt 700 1000) \<and>
   \<not> sentinel (pt 700 1000) \<and>
   nodePositions (handleExpandNode expansion_data anchor_node (state_with before_expansion)) ''B''
     = Some (pt 700 1000) \<and>
   fst (discoverChildren expansion_data anchor_node) = [''B'', ''P'', ''Q''] \<and>
   nodePositions (state_with after_expansion) ''B'' = Some (pt 700 1000) \<and>
   nodePositions (state_with after_expansion) ''P'' = Some (pt 1000 800) \<and>
   nodePositions (state_with after_expansion) ''Q'' = Some (pt 1000 1200) \<and>
   \<not> sentinel (pt 1000 800) \<and> \<not> sentinel (pt 1000 1200) \<and>
   nodePositions (handleExpandNode expansion_data anchor_node (state_with after_expansion))
     = after_expansion \<and>
   set (hp_nodes (highlightedPath
          (handleExpandNode expansion_data anchor_node (state_with after_expansion))))
     = {''A'', ''B'', ''P'', ''Q''} \<and>
   set (hp_edges (highlightedPath
          (handleExpandNode expansion_data anchor_node (state_with after_expansion))))
     = {''A-B'', ''A-P'', ''A-Q''}"
proof -
  have a: "nodePositions (state_with before_expansion) ''B'' = Some (pt 700 1000) \<and>
           \<not> sentinel (pt 700 1000)"
    by (simp add: state_with_def before_expansion_def sentinel_def pt_def)
  have b: "\<forall>c \<in> set (fst (discoverChildren expansion_data anchor_node)).
             \<exists>q. nodePositions (state_with after_expansion) c = Some q \<and> \<not> sentinel q"
    by (simp add: discover_sample state_with_def after_expansion_def sentinel_def pt_def)
  have np: "nodePositions (state_with after_expansion) = after_expansion"
    by (simp add: state_with_def)
  have ida: "node_id anchor_node = ''A''"
    by (simp add: anchor_node_def)
  show ?thesis
    using handleExpandNode_additive [of "state_with before_expansion" "''B''" "pt 700 1000"
            expansion_data anchor_node]
          handleExpandNode_additive [of "state_with after_expansion" "''B''" "pt 700 1000"
            expansion_data anchor_node]
          a b
    by (simp add: np discover_sample ida insert_commute)
      (simp add: after_expansion_def sentinel_def pt_def)
qed

text \<open>
  Claim C7. Clicking the edge from \<open>X\<close> to \<open>Y\<close> sets the highlight set to exactly the
  nodes \<open>{X, Y}\<close> and the single edge key \<open>X-Y\<close>, whatever was highlighted before: the
  previous highlight set does not occur in the result.
\<close>

theorem handleEdgeClick_resets_highlight:
  "highlightedPath (handleEdgeClick e s) =
     \<lparr>hp_nodes = new_Set [edge_source e, edge_target e],
      hp_edges = [edge_source e @ ''-'' @ edge_target e]\<rparr> \<and>
   set (hp_nodes (highlightedPath (handleEdgeClick e s))) = {edge_source e, edge_target e} \<and>
   set (hp_edges (highlightedPath (handleEdgeClick e s)))
     = {edge_source e @ ''-'' @ edge_target e}"
  by (auto simp: handleEdgeClick_def new_Set_def set_add_def edgeKey_def)

text \<open>
  After a click on node \<open>a\<close> has highlighted its whole neighbourhood, a click on the edge
  from \<open>a\<close> to \<open>b\<close> leaves \<open>a\<close>, \<open>b\<close> and \<open>a-b\<close> only.
\<close>

theorem handleEdgeClick_resets_highlight_witness:
  "set (hp_nodes (highlightedPath
          (handleNodeClick render_data (plain_node ''a'') (state_with render_positions))))
     = {''a'', ''b'', ''c'', ''d'', ''z''} \<and>
   highlightedPath (handleEdgeClick (link ''a'' ''b'')
       (handleNodeClick render_data (plain_node ''a'') (state_with render_positions)))
     = \<lparr>hp_nodes = [''a'', ''b''], hp_edges = [''a-b'']\<rparr>"
proof -
  have before: "highlightedPath
       (handleNodeClick render_data (plain_node ''a'') (state_with render_positions))
     = \<lparr>hp_nodes = [''a'', ''b'', ''c'', ''d'', ''z''],
        hp_edges = [''a-b'', ''a-c'', ''a-d'', ''a-z'']\<rparr>"
    by (simp add: handleNodeClick_def findConnectedNodes_def render_data_def render_edges_def
          addConnected_def set_add_def edgeKey_def link_def plain_node_def Let_def)
  show ?thesis
    using handleEdgeClick_resets_highlight [of "link ''a'' ''b''"
            "handleNodeClick render_data (plain_node ''a'') (state_with render_positions)"]
    by (simp add: before new_Set_def set_add_def link_def)
qed

text \<open>
  Claim C8. When the node list changes, the highlight set and the selected node are
  cleared, and the position map keeps exactly its entries for ids of the new node list:
  afterwards it has no entry for an id that is absent from the node list, and the entries
  of the remaining ids are as before.
\<close>

theorem dataChangeEffect_prunes:
  "highlightedPath (dataChangeEffect d s) = \<lparr>hp_nodes = [], hp_edges = []\<rparr> \<and>
   selectedNode (dataChangeEffect d s) = None \<and>
   dom (nodePositions (dataChangeEffect d s)) \<subseteq> node_id ` set (data_nodes d) \<and>
   (\<forall>k. k \<notin> node_id ` set (data_nodes d)
      \<longrightarrow> nodePositions (dataChangeEffect d s) k = None) \<and>
   (\<forall>k. k \<in> node_id ` set (data_nodes d)
      \<longrightarrow> nodePositions (dataChangeEffect d s) k = nodePositions s k)"
  by (auto simp: dataChangeEffect_def prunePositions_def set_new_Set split: if_splits)

text \<open>
  A refresh that drops \<open>z\<close>, which was selected and highlighted, clears both and removes
  the entry of \<open>z\<close>; the entry of \<open>a\<close> stays.
\<close>

theorem dataChangeEffect_prunes_witness:
  "nodePositions stale_state ''z'' = Some (pt 0 500) \<and>
   ''z'' \<notin> node_id ` set (data_nodes refreshed_data) \<and>
   ''a'' \<in> node_id ` set (data_nodes refreshed_data) \<and>
   highlightedPath (dataChangeEffect refreshed_data stale_state)
     = \<lparr>hp_nodes = [], hp_edges = []\<rparr> \<and>
   selectedNode (dataChangeEffect refreshed_data stale_state) = None \<and>
   nodePositions (dataChangeEffect refreshed_data stale_state) ''z'' = None \<and>
   nodePositions (dataChangeEffect refreshed_data stale_state) ''a'' = Some (pt 100 200)"
  using dataChangeEffect_prunes [of refreshed_data stale_state]
  by (simp add: refreshed_data_def stale_state_def render_positions_def plain_node_def)

text \<open>
  Claim C9, as amended. For a node without a \<open>name\<close>, the display name is the node's
  \<open>title\<close> when it has a non-empty one, and otherwise the label \<open>Node\<close> followed by the
  node's id. Both \<^const>\<open>getNodeDisplayName\<close> and \<^const>\<open>displayName\<close> compute it so.
\<close>

theorem displayName_fallback:
  assumes "node_name n = None"
  shows "getNodeDisplayName n =
           (case node_title n of
              None \<Rightarrow> ''Node '' @ node_id n
            | Some t \<Rightarrow> if t = [] then ''Node '' @ node_id n else t) \<and>
         displayName n = getNodeDisplayName n"
  using assms
  by (simp add: getNodeDisplayName_def displayName_def js_or_def truthy_def split: option.splits)

theorem displayName_fallback_witness:
  "node_name (plain_node ''n1'') = None \<and>
   getNodeDisplayName (plain_node ''n1'') = ''Node n1'' \<and>
   displayName (plain_node ''n1'') = ''Node n1'' \<and>
   node_name titled_node = None \<and>
   getNodeDisplayName titled_node = ''Widget'' \<and> displayName titled_node = ''Widget''"
proof -
  have h1: "node_name (plain_node ''n1'') = None"
    by (simp add: plain_node_def)
  have h2: "node_name titled_node = None"
    by (simp add: titled_node_def)
  show ?thesis
    using displayName_fallback [OF h1] displayName_fallback [OF h2] h1 h2
    by (simp add: plain_node_def titled_node_def)
qed

text \<open>
  The claim as stated fails on a node that has a title and no name: its display name is
  the title, not a label made from the id.
\<close>

theorem displayName_title_counterexample:
  "node_name titled_node = None \<and> node_id titled_node = ''n1'' \<and>
   getNodeDisplayName titled_node = ''Widget'' \<and> displayName titled_node = ''Widget'' \<and>
   getNodeDisplayName titled_node \<noteq> ''Node n1''"
  by (simp add: titled_node_def getNodeDisplayName_def displayName_def js_or_def truthy_def)

text \<open>
  Claim C10. The filter \<^const>\<open>validEdges\<close> drops every edge one of whose endpoints has a
  stored position with \<open>x = 0\<close> or with \<open>y = 0\<close>, not only the sentinel \<open>(0, 0)\<close>; yet a
  node is skipped by the node loop only when both coordinates are 0, so a node with
  exactly one zero coordinate, such as \<open>(0, 500)\<close>, is rendered.
\<close>

theorem validEdges_zero_coordinate:
  "((\<exists>p. np (edge_source e) = Some p \<and> (pos_x p = 0 \<or> pos_y p = 0)) \<or>
    (\<exists>p. np (edge_target e) = Some p \<and> (pos_x p = 0 \<or> pos_y p = 0))
      \<longrightarrow> e \<notin> set (validEdges es np)) \<and>
   (np (node_id n) = Some q
      \<longrightarrow> nodeIsRendered np n = (\<not> (pos_x q = 0 \<and> pos_y q = 0))) \<and>
   (n \<in> set ns \<and> np (node_id n) = Some q \<and> (pos_x q = 0) \<noteq> (pos_y q = 0)
      \<longrightarrow> n \<in> set (renderedNodes ns np))"
  by (auto simp: validEdges_def renderedNodes_def nodeIsRendered_Some
           dest: edgeIsValid_source_Some edgeIsValid_target_Some)

text \<open>
  The node \<open>z\<close> at \<open>(0, 500)\<close> is rendered, and the edge from \<open>a\<close> to \<open>z\<close> is not.
\<close>

theorem validEdges_zero_coordinate_witness:
  "render_positions (edge_target (link ''a'' ''z'')) = Some (pt 0 500) \<and>
   pos_x (pt 0 500) = 0 \<and> pos_y (pt 0 500) \<noteq> 0 \<and>
   link ''a'' ''z'' \<in> set render_edges \<and>
   link ''a'' ''z'' \<notin> set (validEdges render_edges render_positions) \<and>
   render_positions (node_id (plain_node ''z'')) = Some (pt 0 500) \<and>
   nodeIsRendered render_positions (plain_node ''z'') \<and>
   plain_node ''z'' \<in> set (renderedNodes (data_nodes render_data) render_positions)"
  using validEdges_zero_coordinate [of render_positions "link ''a'' ''z''" render_edges
          "plain_node ''z''" "pt 0 500" "data_nodes render_data"]
  by (simp add: render_positions_def render_edges_def render_data_def link_def plain_node_def
        pt_def)

end
